theory Spec2Isabelle
  imports Complex_Main "HOL-Library.Sublist"
begin

section \<open>Text: characters, trimming, lines\<close>

text \<open>
  The manifest is opened with \<^verbatim>\<open>open(lists_path, 'r')\<close>: a text file read with
  universal newlines. A decoded text is a \<^typ>\<open>string\<close>; every character stands for the
  code point of the same number (code points below 256).
\<close>

abbreviation LF :: char where "LF \<equiv> CHR 0x0A"
abbreviation CR :: char where "CR \<equiv> CHR 0x0D"

text \<open>
  \<^verbatim>\<open>str.strip()\<close> with no argument removes the characters for which
  \<^verbatim>\<open>str.isspace\<close> holds: code points 9 to 13, 28 to 32, 133 and 160 in this range.
\<close>

definition is_space :: "char \<Rightarrow> bool" where
  "is_space c =
     (let n = (of_char c :: nat)
      in (9 \<le> n \<and> n \<le> 13) \<or> (28 \<le> n \<and> n \<le> 32) \<or> n = 133 \<or> n = 160)"

definition strip :: "string \<Rightarrow> string" where
  "strip s = rev (dropWhile is_space (rev (dropWhile is_space s)))"

text \<open>
  Universal newlines: \<^verbatim>\<open>\r\n\<close> and a lone \<^verbatim>\<open>\r\<close> reach the program as
  \<^verbatim>\<open>\n\<close>.
\<close>

fun universal_newlines :: "string \<Rightarrow> string" where
  "universal_newlines [] = []"
| "universal_newlines [c] = [if c = CR then LF else c]"
| "universal_newlines (c # d # cs) =
     (if c = CR \<and> d = LF then LF # universal_newlines cs
      else if c = CR then LF # universal_newlines (d # cs)
      else c # universal_newlines (d # cs))"

text \<open>
  Iterating a text file yields its lines, each with its terminating \<^verbatim>\<open>\n\<close>; the last
  line has none when the file does not end with one.
\<close>

fun split_lines :: "string \<Rightarrow> string \<Rightarrow> string list" where
  "split_lines cur [] = (if cur = [] then [] else [cur])"
| "split_lines cur (c # cs) =
     (if c = LF then (cur @ [c]) # split_lines [] cs else split_lines (cur @ [c]) cs)"

definition file_lines :: "string \<Rightarrow> string list" where
  "file_lines content = split_lines [] (universal_newlines content)"

section \<open>The manifest: \<^verbatim>\<open>MatList.__init__\<close>\<close>

text \<open>
  An action of the flow is the dictionary \<^verbatim>\<open>{'type': t}\<close> or
  \<^verbatim>\<open>{'type': t, 'name': s}\<close>: \<open>aname\<close> is \<open>None\<close> when the key
  \<^verbatim>\<open>'name'\<close> is absent.
\<close>

record action =
  atype :: int
  aname :: "string option"

definition ENTER_SCOPE :: int where "ENTER_SCOPE = 0"
definition EXIT_SCOPE :: int where "EXIT_SCOPE = 1"
definition SAVE_MAT :: int where "SAVE_MAT = 2"

record MatList =
  ext :: string
  flow :: "action list"

text \<open>\<^verbatim>\<open>file.readline()\<close>: the first line, or the empty string at the end of the file.\<close>

definition readline :: "string list \<Rightarrow> string" where
  "readline ls = (case ls of [] \<Rightarrow> [] | l # _ \<Rightarrow> l)"

text \<open>The body of the loop over the remaining lines: one line, appended to the flow.\<close>

definition add_line :: "action list \<Rightarrow> string \<Rightarrow> action list" where
  "add_line fl raw =
     (let line = strip raw
      in if length line > 0 then
           (if hd line = CHR ''-'' then
              fl @ [\<lparr>atype = EXIT_SCOPE, aname = None\<rparr>]
            else if hd line = CHR ''+'' then
              (let scope_name = strip (tl line)
               in fl @ [\<lparr>atype = ENTER_SCOPE, aname = Some scope_name\<rparr>])
            else
              (let mat_name = strip line
               in fl @ [\<lparr>atype = SAVE_MAT, aname = Some mat_name\<rparr>]))
         else fl)"

fun build_flow :: "action list \<Rightarrow> string list \<Rightarrow> action list" where
  "build_flow fl [] = fl"
| "build_flow fl (raw # rest) = build_flow (add_line fl raw) rest"

definition MatList_init :: "string \<Rightarrow> MatList" where
  "MatList_init content =
     (let ls = file_lines content
      in \<lparr>ext = strip (readline ls), flow = build_flow [] (tl ls)\<rparr>)"

section \<open>Paths: \<^verbatim>\<open>os.path.join\<close>\<close>

text \<open>
  POSIX \<^verbatim>\<open>os.path.join(a, *p)\<close>: a component that starts with the separator replaces
  what was joined so far; otherwise it is appended, after a separator unless the path is empty
  or already ends with one.
\<close>

definition join_step :: "string \<Rightarrow> string \<Rightarrow> string" where
  "join_step path b =
     (if b \<noteq> [] \<and> hd b = CHR ''/'' then b
      else if path = [] \<or> last path = CHR ''/'' then path @ b
      else path @ ''/'' @ b)"

definition os_path_join :: "string \<Rightarrow> string list \<Rightarrow> string" where
  "os_path_join a p = foldl join_step a p"

section \<open>Arrays: floating-point values and the numpy operations of \<^verbatim>\<open>compare\<close>\<close>

text \<open>
  An element of a matrix is a floating-point value: a finite number, one of the two
  infinities, or not-a-number. The arithmetic on finite numbers is taken as exact (no
  rounding, no overflow); the special values follow IEEE 754: not-a-number is absorbing,
  the difference of equal infinities is not-a-number, and every comparison with
  not-a-number is false.
\<close>

datatype fl = Fin real | PInf | NInf | NaN

definition is_finite :: "fl \<Rightarrow> bool" where
  "is_finite x = (case x of Fin a \<Rightarrow> True | _ \<Rightarrow> False)"

fun fl_neg :: "fl \<Rightarrow> fl" where
  "fl_neg (Fin a) = Fin (- a)"
| "fl_neg PInf = NInf"
| "fl_neg NInf = PInf"
| "fl_neg NaN = NaN"

fun fl_add :: "fl \<Rightarrow> fl \<Rightarrow> fl" where
  "fl_add (Fin a) (Fin b) = Fin (a + b)"
| "fl_add NaN y = NaN"
| "fl_add x NaN = NaN"
| "fl_add PInf NInf = NaN"
| "fl_add NInf PInf = NaN"
| "fl_add PInf y = PInf"
| "fl_add x PInf = PInf"
| "fl_add NInf y = NInf"
| "fl_add x NInf = NInf"

definition fl_sub :: "fl \<Rightarrow> fl \<Rightarrow> fl" where
  "fl_sub x y = fl_add x (fl_neg y)"

fun fl_abs :: "fl \<Rightarrow> fl" where
  "fl_abs (Fin a) = Fin (abs a)"
| "fl_abs PInf = PInf"
| "fl_abs NInf = PInf"
| "fl_abs NaN = NaN"

fun fl_square :: "fl \<Rightarrow> fl" where
  "fl_square (Fin a) = Fin (a * a)"
| "fl_square PInf = PInf"
| "fl_square NInf = PInf"
| "fl_square NaN = NaN"

text \<open>Division by a count; the count is never zero where the code divides.\<close>

fun fl_divn :: "fl \<Rightarrow> nat \<Rightarrow> fl" where
  "fl_divn (Fin a) n =
     (if n = 0 then (if a = 0 then NaN else if 0 < a then PInf else NInf)
      else Fin (a / real n))"
| "fl_divn x n = x"

fun fl_sqrt :: "fl \<Rightarrow> fl" where
  "fl_sqrt (Fin a) = (if a < 0 then NaN else Fin (sqrt a))"
| "fl_sqrt PInf = PInf"
| "fl_sqrt NInf = NaN"
| "fl_sqrt NaN = NaN"

fun fl_lt :: "fl \<Rightarrow> fl \<Rightarrow> bool" where
  "fl_lt (Fin a) (Fin b) = (a < b)"
| "fl_lt NaN y = False"
| "fl_lt x NaN = False"
| "fl_lt PInf y = False"
| "fl_lt x NInf = False"
| "fl_lt NInf y = True"
| "fl_lt x PInf = True"

definition fl_le :: "fl \<Rightarrow> fl \<Rightarrow> bool" where
  "fl_le x y = (fl_lt x y \<or> (x = y \<and> x \<noteq> NaN))"

definition fl_min :: "fl \<Rightarrow> fl \<Rightarrow> fl" where
  "fl_min a b = (if fl_lt b a then b else a)"

definition fl_max :: "fl \<Rightarrow> fl \<Rightarrow> fl" where
  "fl_max a b = (if fl_lt a b then b else a)"

fun fl_sum :: "fl list \<Rightarrow> fl" where
  "fl_sum [] = Fin 0"
| "fl_sum (x # xs) = fl_add x (fl_sum xs)"

fun fl_insort :: "fl \<Rightarrow> fl list \<Rightarrow> fl list" where
  "fl_insort x [] = [x]"
| "fl_insort x (y # ys) = (if fl_le x y then x # y # ys else y # fl_insort x ys)"

definition fl_sort :: "fl list \<Rightarrow> fl list" where
  "fl_sort xs = foldr fl_insort xs []"

text \<open>Exceptions are values.\<close>

datatype pyval = PStr string | PTuple "pyval list"

datatype exn =
    LoadFailed
  | BroadcastError nat nat
  | ZeroSizeReduction
  | OSError string
  | BadFilename pyval

text \<open>
  \<^verbatim>\<open>m2 - m1\<close> on one-dimensional arrays broadcasts: equal lengths subtract elementwise,
  an array of length one is stretched to the other's length, and any other pair of lengths
  raises \<^verbatim>\<open>ValueError\<close>.
\<close>

definition np_sub :: "fl list \<Rightarrow> fl list \<Rightarrow> exn + fl list" where
  "np_sub m2 m1 =
     (if length m2 = length m1 then Inr (map2 fl_sub m2 m1)
      else if length m1 = 1 then Inr (map (\<lambda>x. fl_sub x (hd m1)) m2)
      else if length m2 = 1 then Inr (map (\<lambda>y. fl_sub (hd m2) y) m1)
      else Inl (BroadcastError (length m2) (length m1)))"

definition np_abs :: "fl list \<Rightarrow> fl list" where
  "np_abs xs = map fl_abs xs"

text \<open>\<^verbatim>\<open>np.linalg.norm(x, ord=1)\<close> of a vector: the sum of the absolute values.\<close>

definition np_norm1 :: "fl list \<Rightarrow> fl" where
  "np_norm1 xs = fl_sum (map fl_abs xs)"

text \<open>
  \<^verbatim>\<open>np.min\<close> and \<^verbatim>\<open>np.max\<close> raise \<^verbatim>\<open>ValueError\<close> on an array of size zero, and
  give not-a-number when the array holds one.
\<close>

definition np_min :: "fl list \<Rightarrow> exn + fl" where
  "np_min xs =
     (case xs of
        [] \<Rightarrow> Inl ZeroSizeReduction
      | x # r \<Rightarrow> Inr (if NaN \<in> set xs then NaN else fold fl_min r x))"

definition np_max :: "fl list \<Rightarrow> exn + fl" where
  "np_max xs =
     (case xs of
        [] \<Rightarrow> Inl ZeroSizeReduction
      | x # r \<Rightarrow> Inr (if NaN \<in> set xs then NaN else fold fl_max r x))"

text \<open>
  The three reductions below are reached on a non-empty array only (\<^verbatim>\<open>np.min\<close> has
  raised otherwise). The median of an array that holds not-a-number is not-a-number.
\<close>

definition np_average :: "fl list \<Rightarrow> fl" where
  "np_average xs = fl_divn (fl_sum xs) (length xs)"

definition np_median :: "fl list \<Rightarrow> fl" where
  "np_median xs =
     (if NaN \<in> set xs then NaN
      else
        (let s = fl_sort xs; n = length xs
         in if odd n then s ! (n div 2)
            else fl_divn (fl_add (s ! (n div 2 - 1)) (s ! (n div 2))) 2))"

definition np_std :: "fl list \<Rightarrow> fl" where
  "np_std xs =
     fl_sqrt (np_average (map (\<lambda>x. fl_square (fl_sub x (np_average xs))) xs))"

section \<open>The world: files, printed lines, calls\<close>

text \<open>
  A regular file either holds a matrix (\<open>Mat xs\<close>: \<^verbatim>\<open>load_mat(path).flatten()\<close> returns
  \<open>xs\<close>) or is one from which no array can be loaded (\<open>NoMat\<close>: the call raises). A
  file that stores an empty matrix is of the second kind: for it \<^verbatim>\<open>mat()\<close> gives
  \<^verbatim>\<open>None\<close> and \<^verbatim>\<open>flatten\<close> raises, so an array that loads has at least one element.
\<close>

datatype fnode = Mat "fl list" | NoMat

type_synonym fsys = "string \<rightharpoonup> fnode"

definition isfile :: "fsys \<Rightarrow> string \<Rightarrow> bool" where
  "isfile F p = (F p \<noteq> None)"

definition load_mat :: "fsys \<Rightarrow> string \<Rightarrow> exn + fl list" where
  "load_mat F p = (case F p of Some (Mat xs) \<Rightarrow> Inr xs | _ \<Rightarrow> Inl LoadFailed)"

text \<open>
  \<^verbatim>\<open>cv2.FileStorage(filename, cv2.FILE_STORAGE_WRITE)\<close> takes a string for its file name
  and raises on any other object.
\<close>

definition cv2_FileStorage :: "pyval \<Rightarrow> exn + string" where
  "cv2_FileStorage v = (case v of PStr p \<Rightarrow> Inr p | PTuple vs \<Rightarrow> Inl (BadFilename v))"

text \<open>
  A printed line is a colour and the pieces of its text: a formatted string is the list of its
  literal parts and of the values it interpolates (the decimal form of a float is not fixed
  here). \<open>Plain\<close> is a \<^verbatim>\<open>print\<close> without a colour.
\<close>

datatype colour = White | Green | Yellow | Red | Plain

datatype piece = Str string | Num fl | Exc exn

datatype event =
    IsFile string
  | LoadMat string
  | Print colour "piece list"
  | MakeDirs string
  | OpenStorage pyval
  | WriteNode string string "fl list"

record state =
  scopes :: "string list"
  trace :: "event list"
  fs :: fsys

datatype fatal = IndexError | KeyError | UnknownActionType

abbreviation dq :: string where "dq \<equiv> [CHR 0x22]"

definition padding :: "nat \<Rightarrow> string" where
  "padding n = concat (replicate n ''    '')"

section \<open>The replay: \<^verbatim>\<open>MatList.compare\<close>\<close>

text \<open>
  The body of the \<^verbatim>\<open>try\<close>: the calls it makes and the lines it prints, the file
  system it leaves, and the exception it raised, if any. \<open>mk\<close> is the answer of
  \<^verbatim>\<open>os.makedirs(diff_dir, exist_ok=True)\<close>: \<open>None\<close>, or the exception it raises.
\<close>

definition try_block ::
  "(string \<Rightarrow> exn option) \<Rightarrow> string \<Rightarrow> string list \<Rightarrow> string \<Rightarrow> string \<Rightarrow> string \<Rightarrow> string
     \<Rightarrow> fsys \<Rightarrow> event list \<times> fsys \<times> exn option" where
  "try_block mk tmp_dir1 sc mat_name e path1 path2 F =
     (case load_mat F path1 of
        Inl x \<Rightarrow> ([LoadMat path1], F, Some x)
      | Inr m1 \<Rightarrow>
     (case load_mat F path2 of
        Inl x \<Rightarrow> ([LoadMat path1, LoadMat path2], F, Some x)
      | Inr m2 \<Rightarrow>
     (let loads = [LoadMat path1, LoadMat path2] in
     (case np_sub m2 m1 of
        Inl x \<Rightarrow> (loads, F, Some x)
      | Inr dm \<Rightarrow>
     (let diff = np_abs dm;
          d = np_norm1 diff
      in
     (case np_min diff of
        Inl x \<Rightarrow> (loads, F, Some x)
      | Inr mn \<Rightarrow>
     (case np_max diff of
        Inl x \<Rightarrow> (loads, F, Some x)
      | Inr mx \<Rightarrow>
     (let avg = np_average diff;
          median = np_median diff;
          std = np_std diff;
          text = [Str (padding (length sc)), Str mat_name, Str '': d='', Num d]
      in
        if fl_lt d (Fin 0.001) then (loads @ [Print Green text], F, None)
        else
          (let text2 = text @ [Str '', min='', Num mn, Str '', max='', Num mx,
                               Str '', avg='', Num avg, Str '', median='', Num median,
                               Str '', std='', Num std];
               line = (if fl_lt d (Fin 10.0) then Print Yellow text2 else Print Red text2);
               diff_dir = os_path_join tmp_dir1 (''diff'' # sc)
           in
          (case mk diff_dir of
             Some x \<Rightarrow> (loads @ [line, MakeDirs diff_dir], F, Some x)
           | None \<Rightarrow>
          (let diff_file = PTuple [PStr (os_path_join diff_dir [mat_name @ e])] in
          (case cv2_FileStorage diff_file of
             Inl x \<Rightarrow> (loads @ [line, MakeDirs diff_dir, OpenStorage diff_file], F, Some x)
           | Inr p \<Rightarrow>
               (loads @ [line, MakeDirs diff_dir, OpenStorage diff_file,
                         WriteNode p ''root'' diff],
                F(p \<mapsto> Mat diff), None)))))))))))))"

text \<open>
  The relative path of the error line, \<^verbatim>\<open>os.path.join\<close> of the scopes and of
  \<^verbatim>\<open>mat_name + self.ext\<close>:
  the first of the components is the path the others are joined to.
\<close>

definition rel_path :: "string list \<Rightarrow> string \<Rightarrow> string \<Rightarrow> string" where
  "rel_path sc mat_name e =
     (case sc @ [mat_name @ e] of a # p \<Rightarrow> os_path_join a p | [] \<Rightarrow> [])"

definition error_line :: "string list \<Rightarrow> string \<Rightarrow> string \<Rightarrow> exn \<Rightarrow> event" where
  "error_line sc mat_name e x =
     Print Plain [Str (''Error when comparing '' @ dq), Str (rel_path sc mat_name e),
                  Str (dq @ '': '' @ dq), Exc x, Str (dq @ ''.'')]"

definition missing_line :: "string \<Rightarrow> string \<Rightarrow> event" where
  "missing_line path1 path2 =
     Print Plain [Str (''Cannot find file matrices: '' @ dq), Str path1,
                  Str (dq @ '' or '' @ dq), Str path2, Str dq]"

text \<open>The branch of a \<^verbatim>\<open>SAVE_MAT\<close> action; \<^verbatim>\<open>and\<close> tests the second file only when the first exists.\<close>

definition save_mat ::
  "(string \<Rightarrow> exn option) \<Rightarrow> string \<Rightarrow> string \<Rightarrow> string \<Rightarrow> state \<Rightarrow> string \<Rightarrow> state" where
  "save_mat mk tmp_dir1 tmp_dir2 e st mat_name =
     (let sc = scopes st;
          path1 = os_path_join tmp_dir1 (sc @ [mat_name @ e]);
          path2 = os_path_join tmp_dir2 (sc @ [mat_name @ e])
      in
        if isfile (fs st) path1 then
          (if isfile (fs st) path2 then
             (case try_block mk tmp_dir1 sc mat_name e path1 path2 (fs st) of
                (evs, F, None) \<Rightarrow>
                  st\<lparr>trace := trace st @ [IsFile path1, IsFile path2] @ evs, fs := F\<rparr>
              | (evs, F, Some x) \<Rightarrow>
                  st\<lparr>trace := trace st @ [IsFile path1, IsFile path2] @ evs
                                @ [error_line sc mat_name e x],
                     fs := F\<rparr>)
           else
             st\<lparr>trace := trace st @ [IsFile path1, IsFile path2, missing_line path1 path2]\<rparr>)
        else
          st\<lparr>trace := trace st @ [IsFile path1, missing_line path1 path2]\<rparr>)"

text \<open>
  One turn of the loop. An exception that leaves the loop is \<open>Inl\<close>, with the state it
  left behind: \<^verbatim>\<open>scopes.pop()\<close> on an empty list, a missing \<^verbatim>\<open>'name'\<close>, the final
  \<^verbatim>\<open>raise\<close>.
\<close>

definition step ::
  "(string \<Rightarrow> exn option) \<Rightarrow> string \<Rightarrow> string \<Rightarrow> string \<Rightarrow> state \<Rightarrow> action
     \<Rightarrow> fatal \<times> state + state" where
  "step mk tmp_dir1 tmp_dir2 e st a =
     (let t = atype a in
      if t = ENTER_SCOPE then
        (case aname a of
           None \<Rightarrow> Inl (KeyError, st)
         | Some scope_name \<Rightarrow>
             Inr (st\<lparr>scopes := scopes st @ [scope_name],
                     trace := trace st
                       @ [Print White [Str (padding (length (scopes st)) @ scope_name @ ''/'')]]\<rparr>))
      else if t = EXIT_SCOPE then
        (if scopes st = [] then Inl (IndexError, st)
         else Inr (st\<lparr>scopes := butlast (scopes st)\<rparr>))
      else if t = SAVE_MAT then
        (case aname a of
           None \<Rightarrow> Inl (KeyError, st)
         | Some mat_name \<Rightarrow> Inr (save_mat mk tmp_dir1 tmp_dir2 e st mat_name))
      else Inl (UnknownActionType, st))"

fun run ::
  "(string \<Rightarrow> exn option) \<Rightarrow> string \<Rightarrow> string \<Rightarrow> string \<Rightarrow> state \<Rightarrow> action list
     \<Rightarrow> fatal \<times> state + state" where
  "run mk tmp_dir1 tmp_dir2 e st [] = Inr st"
| "run mk tmp_dir1 tmp_dir2 e st (a # rest) =
     (case step mk tmp_dir1 tmp_dir2 e st a of
        Inl err \<Rightarrow> Inl err
      | Inr st' \<Rightarrow> run mk tmp_dir1 tmp_dir2 e st' rest)"

text \<open>
  \<^verbatim>\<open>compare(self, tmp_dir1, tmp_dir2)\<close> on the file system \<open>F\<close>: the scope stack starts
  empty.
\<close>

definition compare ::
  "(string \<Rightarrow> exn option) \<Rightarrow> fsys \<Rightarrow> MatList \<Rightarrow> string \<Rightarrow> string \<Rightarrow> fatal \<times> state + state" where
  "compare mk F ml tmp_dir1 tmp_dir2 =
     run mk tmp_dir1 tmp_dir2 (ext ml) \<lparr>scopes = [], trace = [], fs = F\<rparr> (flow ml)"

section \<open>The specification's words\<close>

text \<open>
  The manifest grammar as the specification gives it: a variant with three cases, a line
  classified by the first character of its trimmed text, blank lines skipped.
\<close>

datatype spec_action = EnterScope string | ExitScope | SaveEntry string

definition spec_line :: "string \<Rightarrow> spec_action option" where
  "spec_line raw =
     (case strip raw of
        [] \<Rightarrow> None
      | c # r \<Rightarrow>
          Some (if c = CHR ''-'' then ExitScope
                else if c = CHR ''+'' then EnterScope (strip r)
                else SaveEntry (strip raw)))"

definition spec_manifest :: "string list \<Rightarrow> string \<times> spec_action list" where
  "spec_manifest ls =
     (case ls of
        [] \<Rightarrow> ([], [])
      | first # rest \<Rightarrow> (strip first, List.map_filter spec_line rest))"

text \<open>The dictionary the parser builds for each case of the variant.\<close>

fun action_of :: "spec_action \<Rightarrow> action" where
  "action_of (EnterScope n) = \<lparr>atype = ENTER_SCOPE, aname = Some n\<rparr>"
| "action_of ExitScope = \<lparr>atype = EXIT_SCOPE, aname = None\<rparr>"
| "action_of (SaveEntry n) = \<lparr>atype = SAVE_MAT, aname = Some n\<rparr>"

text \<open>
  An action as the parser builds them: one of the three types, with a name unless it leaves
  a scope.
\<close>

definition parsed_action :: "action \<Rightarrow> bool" where
  "parsed_action a =
     (atype a = EXIT_SCOPE
      \<or> (atype a = ENTER_SCOPE \<or> atype a = SAVE_MAT) \<and> aname a \<noteq> None)"

definition count_type :: "int \<Rightarrow> action list \<Rightarrow> nat" where
  "count_type t as = length (filter (\<lambda>a. atype a = t) as)"

text \<open>
  Balanced: no prefix of the flow has more actions that leave a scope than actions that enter
  one. \<open>depth_ok k\<close> is the same with \<open>k\<close> scopes already entered.
\<close>

definition depth_ok :: "nat \<Rightarrow> action list \<Rightarrow> bool" where
  "depth_ok k as =
     list_all (\<lambda>p. count_type EXIT_SCOPE p \<le> k + count_type ENTER_SCOPE p) (prefixes as)"

definition balanced :: "action list \<Rightarrow> bool" where
  "balanced as = depth_ok 0 as"

text \<open>The scope stack after a run of actions: a push for each entry, a pop for each exit.\<close>

fun stack_after :: "string list \<Rightarrow> action list \<Rightarrow> string list" where
  "stack_after sc [] = sc"
| "stack_after sc (a # as) =
     stack_after
       (if atype a = ENTER_SCOPE then sc @ [the (aname a)]
        else if atype a = EXIT_SCOPE then butlast sc
        else sc) as"

text \<open>
  The path of an entry under a root: the root, the scopes, and the name with the extension
  appended to it.
\<close>

definition entry_path :: "string \<Rightarrow> string list \<Rightarrow> string \<Rightarrow> string \<Rightarrow> string" where
  "entry_path dir sc mat_name e = os_path_join dir (sc @ [mat_name @ e])"

text \<open>
  The lines of the output: a scope line is printed in white; the line of an entry is a result
  (green, yellow or red) or a diagnostic (no colour).
\<close>

definition is_scope_line :: "event \<Rightarrow> bool" where
  "is_scope_line ev = (case ev of Print c t \<Rightarrow> c = White | _ \<Rightarrow> False)"

definition is_entry_line :: "event \<Rightarrow> bool" where
  "is_entry_line ev = (case ev of Print c t \<Rightarrow> c \<noteq> White | _ \<Rightarrow> False)"

definition is_write :: "event \<Rightarrow> bool" where
  "is_write ev = (case ev of WriteNode p k xs \<Rightarrow> True | _ \<Rightarrow> False)"

text \<open>The three classes of a distance, and the colour each is printed in.\<close>

datatype classification = Identical | Minor | Major

definition classify :: "fl \<Rightarrow> classification" where
  "classify d =
     (if fl_lt d (Fin 0.001) then Identical
      else if fl_le (Fin 0.001) d \<and> fl_lt d (Fin 10.0) then Minor
      else Major)"

fun colour_of :: "classification \<Rightarrow> colour" where
  "colour_of Identical = Green"
| "colour_of Minor = Yellow"
| "colour_of Major = Red"

section \<open>The scenarios of the specification\<close>

text \<open>
  The manifest of the end-to-end scenarios (an extension, an entry, a scope with one entry),
  shorter ones, and the file systems the scenarios run on. \<open>no_fail\<close> is an
  \<^verbatim>\<open>os.makedirs\<close> that never raises.
\<close>

definition example_manifest :: string where
  "example_manifest =
     ''.yml'' @ [LF] @ ''a'' @ [LF] @ ''+g'' @ [LF] @ ''b'' @ [LF] @ ''-'' @ [LF]"

definition manifest_a :: string where
  "manifest_a = ''.yml'' @ [LF] @ ''a'' @ [LF]"

definition manifest_scope :: string where
  "manifest_scope = ''.yml'' @ [LF] @ ''+g'' @ [LF] @ ''-'' @ [LF]"

definition manifest_underflow :: string where
  "manifest_underflow = ''.yml'' @ [LF] @ ''-'' @ [LF]"

definition no_fail :: "string \<Rightarrow> exn option" where
  "no_fail d = None"

definition fs_major :: fsys where
  "fs_major = [''A/a.yml'' \<mapsto> Mat [Fin 0, Fin 0], ''B/a.yml'' \<mapsto> Mat [Fin 5, Fin 5]]"

definition fs_minor :: fsys where
  "fs_minor = [''A/a.yml'' \<mapsto> Mat [Fin 0], ''B/a.yml'' \<mapsto> Mat [Fin 0.001]]"

definition fs_same :: fsys where
  "fs_same = [''A/a.yml'' \<mapsto> Mat [Fin 1, Fin 2], ''B/a.yml'' \<mapsto> Mat [Fin 1, Fin 2]]"

definition fs_inf :: fsys where
  "fs_inf = [''A/a.yml'' \<mapsto> Mat [PInf], ''B/a.yml'' \<mapsto> Mat [PInf]]"

definition fs_stretched :: fsys where
  "fs_stretched = [''A/a.yml'' \<mapsto> Mat [Fin 1], ''B/a.yml'' \<mapsto> Mat [Fin 1, Fin 1, Fin 1]]"

definition fs_mismatch :: fsys where
  "fs_mismatch = [''A/a.yml'' \<mapsto> Mat [Fin 1, Fin 2], ''B/a.yml'' \<mapsto> Mat [Fin 1, Fin 2, Fin 3]]"

definition init_state :: "fsys \<Rightarrow> state" where
  "init_state F = \<lparr>scopes = [], trace = [], fs = F\<rparr>"

definition save_a :: action where
  "save_a = \<lparr>atype = SAVE_MAT, aname = Some ''a''\<rparr>"

definition enter_g :: action where
  "enter_g = \<lparr>atype = ENTER_SCOPE, aname = Some ''g''\<rparr>"

definition save_b :: action where
  "save_b = \<lparr>atype = SAVE_MAT, aname = Some ''b''\<rparr>"

definition exit_scope :: action where
  "exit_scope = \<lparr>atype = EXIT_SCOPE, aname = None\<rparr>"

section \<open>Properties\<close>

subsection \<open>Trimming, the parser, and the body of the try\<close>

lemma strip_Nil: "strip [] = []"
  by (simp add: strip_def)

lemma strip_prefix: "\<exists>r. dropWhile is_space s = strip s @ r"
proof -
  let ?u = "dropWhile is_space s"
  have "rev ?u = takeWhile is_space (rev ?u) @ dropWhile is_space (rev ?u)"
    by simp
  then have "?u = rev (dropWhile is_space (rev ?u)) @ rev (takeWhile is_space (rev ?u))"
    by (metis rev_append rev_rev_ident)
  then show ?thesis
    unfolding strip_def by blast
qed

lemma strip_hd: "strip s \<noteq> [] \<Longrightarrow> \<not> is_space (hd (strip s))"
proof -
  assume ne: "strip s \<noteq> []"
  obtain r where r: "dropWhile is_space s = strip s @ r"
    using strip_prefix by blast
  then have "hd (dropWhile is_space s) = hd (strip s)"
    using ne by simp
  moreover have "dropWhile is_space s \<noteq> []"
    using r ne by simp
  ultimately show ?thesis
    using hd_dropWhile by metis
qed

lemma strip_strip: "strip (strip s) = strip s"
proof (cases "strip s = []")
  case True
  then show ?thesis by (simp add: strip_Nil)
next
  case False
  then have "\<not> is_space (hd (strip s))"
    by (rule strip_hd)
  with False have "dropWhile is_space (strip s) = strip s"
    by (cases "strip s") simp_all
  moreover have "dropWhile is_space (rev (strip s)) = rev (strip s)"
    by (simp add: strip_def)
  ultimately show ?thesis
    by (simp add: strip_def)
qed

lemma add_line_spec:
  "add_line fl raw = fl @ map action_of (case spec_line raw of None \<Rightarrow> [] | Some a \<Rightarrow> [a])"
  using strip_strip [of raw]
  by (cases "strip raw") (simp_all add: add_line_def spec_line_def Let_def)

lemma build_flow_spec:
  "build_flow fl ls = fl @ map action_of (List.map_filter spec_line ls)"
proof (induction ls arbitrary: fl)
  case Nil
  show ?case by (simp add:)
next
  case (Cons raw ls)
  show ?case
    by (simp add: Cons.IH add_line_spec split: option.split)
qed

lemma MatList_init_spec:
  "MatList_init content =
     \<lparr>ext = fst (spec_manifest (file_lines content)),
      flow = map action_of (snd (spec_manifest (file_lines content)))\<rparr>"
  by (cases "file_lines content")
     (simp_all add: MatList_init_def spec_manifest_def readline_def strip_Nil build_flow_spec Let_def)


lemma cv2_tuple: "cv2_FileStorage (PTuple vs) = Inl (BadFilename (PTuple vs))"
  by (simp add: cv2_FileStorage_def)

lemma try_block_fs: "try_block mk A sc n e p1 p2 F = (evs, F', r) \<Longrightarrow> F' = F"
  by (auto simp: try_block_def Let_def cv2_tuple split: sum.splits option.splits if_splits)

lemma try_block_load1:
  "load_mat F p1 = Inl x \<Longrightarrow> try_block mk A sc n e p1 p2 F = ([LoadMat p1], F, Some x)"
  by (simp add: try_block_def)

lemma try_block_load2:
  "load_mat F p1 = Inr m1 \<Longrightarrow> load_mat F p2 = Inl x \<Longrightarrow>
     try_block mk A sc n e p1 p2 F = ([LoadMat p1, LoadMat p2], F, Some x)"
  by (simp add: try_block_def)

lemma try_block_sub:
  "load_mat F p1 = Inr m1 \<Longrightarrow> load_mat F p2 = Inr m2 \<Longrightarrow> np_sub m2 m1 = Inl x \<Longrightarrow>
     try_block mk A sc n e p1 p2 F = ([LoadMat p1, LoadMat p2], F, Some x)"
  by (simp add: try_block_def)

lemma try_block_empty:
  "load_mat F p1 = Inr m1 \<Longrightarrow> load_mat F p2 = Inr m2 \<Longrightarrow> np_sub m2 m1 = Inr [] \<Longrightarrow>
     try_block mk A sc n e p1 p2 F = ([LoadMat p1, LoadMat p2], F, Some ZeroSizeReduction)"
  by (simp add: try_block_def np_abs_def np_min_def)

lemma try_block_green:
  "load_mat F p1 = Inr m1 \<Longrightarrow> load_mat F p2 = Inr m2 \<Longrightarrow> np_sub m2 m1 = Inr dm \<Longrightarrow>
   dm \<noteq> [] \<Longrightarrow> fl_lt (np_norm1 (np_abs dm)) (Fin 0.001) \<Longrightarrow>
     try_block mk A sc n e p1 p2 F =
       ([LoadMat p1, LoadMat p2,
         Print Green [Str (padding (length sc)), Str n, Str '': d='', Num (np_norm1 (np_abs dm))]],
        F, None)"
  by (cases dm) (simp_all add: try_block_def np_abs_def np_min_def np_max_def Let_def)

lemma try_block_differ:
  "load_mat F p1 = Inr m1 \<Longrightarrow> load_mat F p2 = Inr m2 \<Longrightarrow> np_sub m2 m1 = Inr dm \<Longrightarrow>
   dm \<noteq> [] \<Longrightarrow> \<not> fl_lt (np_norm1 (np_abs dm)) (Fin 0.001) \<Longrightarrow>
     \<exists>t. try_block mk A sc n e p1 p2 F =
       ([LoadMat p1, LoadMat p2,
         Print (if fl_lt (np_norm1 (np_abs dm)) (Fin 10.0) then Yellow else Red) t,
         MakeDirs (os_path_join A (''diff'' # sc))]
        @ (case mk (os_path_join A (''diff'' # sc)) of
             Some x \<Rightarrow> []
           | None \<Rightarrow> [OpenStorage (PTuple [PStr (os_path_join (os_path_join A (''diff'' # sc)) [n @ e])])]),
        F,
        Some (case mk (os_path_join A (''diff'' # sc)) of
                Some x \<Rightarrow> x
              | None \<Rightarrow> BadFilename (PTuple [PStr (os_path_join (os_path_join A (''diff'' # sc)) [n @ e])])))"
  by (cases dm) (auto simp: try_block_def np_abs_def np_min_def np_max_def Let_def cv2_tuple split: option.splits)

lemma save_mat_scopes: "scopes (save_mat mk A B e st n) = scopes st"
  by (simp add: save_mat_def Let_def split: prod.splits option.splits)

lemma save_mat_fs: "fs (save_mat mk A B e st n) = fs st"
  by (auto simp: save_mat_def Let_def dest: try_block_fs split: prod.splits option.splits)

lemma run_save:
  "atype a = SAVE_MAT \<Longrightarrow> aname a = Some n \<Longrightarrow>
     run mk A B e st (a # rest) = run mk A B e (save_mat mk A B e st n) rest"
  by (simp add: step_def ENTER_SCOPE_def EXIT_SCOPE_def SAVE_MAT_def)

lemma run_append:
  "run mk A B e st (xs @ ys) =
     (case run mk A B e st xs of Inl err \<Rightarrow> Inl err | Inr st' \<Rightarrow> run mk A B e st' ys)"
  by (induction xs arbitrary: st) (simp_all split: sum.splits)


text \<open>
Claim C5. The parser refines the manifest grammar: the extension is the trimmed first line
  (the empty string for an empty file, and an empty extension is kept), every later line that is
  blank after trimming is skipped, and the others become, in the order of the lines, an exit for
  a first character \<open>-\<close>, an entry into the scope named by the trimmed rest for a first
  character \<open>+\<close>, and a matrix named by the whole trimmed line otherwise.
\<close>

theorem manifest_parser_grammar:
  "MatList_init content =
     \<lparr>ext = fst (spec_manifest (file_lines content)),
      flow = map action_of (snd (spec_manifest (file_lines content)))\<rparr>"
  by (rule MatList_init_spec)

subsection \<open>Parsed actions and scope depth\<close>

lemma parsed_action_of: "parsed_action (action_of x)"
  by (cases x) (simp_all add: parsed_action_def)

lemma parsed_flow: "a \<in> set (flow (MatList_init content)) \<Longrightarrow> parsed_action a"
  by (auto simp: MatList_init_spec parsed_action_of)

lemma step_parsed_not_unknown:
  "parsed_action a \<Longrightarrow> step mk A B e st a \<noteq> Inl (UnknownActionType, s)"
  by (auto simp: step_def parsed_action_def Let_def split: option.splits)

lemma run_not_unknown:
  "\<forall>a\<in>set as. parsed_action a \<Longrightarrow> run mk A B e st as \<noteq> Inl (UnknownActionType, s)"
proof (induction as arbitrary: st)
  case Nil
  show ?case by simp
next
  case (Cons a as)
  show ?case
  proof (cases "step mk A B e st a")
    case (Inl err)
    with Cons.prems step_parsed_not_unknown [of a mk A B e st s] show ?thesis
      by auto
  next
    case (Inr st')
    with Cons show ?thesis by simp
  qed
qed

text \<open>
Claim C10. Every action the parser builds has one of the three types, and on a parsed
  manifest \<^verbatim>\<open>compare\<close> never raises the unknown-type exception.
\<close>

theorem parsed_flow_never_unknown:
  "(\<forall>a\<in>set (flow (MatList_init content)).
      atype a = ENTER_SCOPE \<or> atype a = EXIT_SCOPE \<or> atype a = SAVE_MAT)
   \<and> (\<forall>s. compare mk F (MatList_init content) tmp_dir1 tmp_dir2 \<noteq> Inl (UnknownActionType, s))"
proof
  show "\<forall>a\<in>set (flow (MatList_init content)).
      atype a = ENTER_SCOPE \<or> atype a = EXIT_SCOPE \<or> atype a = SAVE_MAT"
    using parsed_flow by (auto simp: parsed_action_def)
  show "\<forall>s. compare mk F (MatList_init content) tmp_dir1 tmp_dir2 \<noteq> Inl (UnknownActionType, s)"
    unfolding compare_def using run_not_unknown parsed_flow by blast
qed

lemma count_type_Cons:
  "count_type t (a # as) = (if atype a = t then Suc (count_type t as) else count_type t as)"
  by (simp add: count_type_def)

lemma count_type_Nil: "count_type t [] = 0"
  by (simp add: count_type_def)

lemma depth_ok_Nil: "depth_ok k []"
  by (simp add: depth_ok_def count_type_Nil)

lemma depth_ok_enter:
  "atype a = ENTER_SCOPE \<Longrightarrow> depth_ok k (a # as) = depth_ok (Suc k) as"
  by (simp add: depth_ok_def count_type_Cons count_type_Nil list.pred_map comp_def
      ENTER_SCOPE_def EXIT_SCOPE_def)

lemma depth_ok_exit0:
  "atype a = EXIT_SCOPE \<Longrightarrow> \<not> depth_ok 0 (a # as)"
  by (cases as)
     (simp_all add: depth_ok_def count_type_Cons count_type_Nil list.pred_map comp_def
        ENTER_SCOPE_def EXIT_SCOPE_def)

lemma depth_ok_exit:
  "atype a = EXIT_SCOPE \<Longrightarrow> depth_ok (Suc k) (a # as) = depth_ok k as"
  by (simp add: depth_ok_def count_type_Cons count_type_Nil list.pred_map comp_def
      ENTER_SCOPE_def EXIT_SCOPE_def)

lemma depth_ok_other:
  "atype a \<noteq> ENTER_SCOPE \<Longrightarrow> atype a \<noteq> EXIT_SCOPE \<Longrightarrow> depth_ok k (a # as) = depth_ok k as"
  by (simp add: depth_ok_def count_type_Cons count_type_Nil list.pred_map comp_def)

subsection \<open>The scope stack\<close>

lemma step_enter:
  "atype a = ENTER_SCOPE \<Longrightarrow> aname a = Some n \<Longrightarrow>
     step mk A B e st a =
       Inr (st\<lparr>scopes := scopes st @ [n],
               trace := trace st @ [Print White [Str (padding (length (scopes st)) @ n @ ''/'')]]\<rparr>)"
  by (simp add: step_def)

lemma step_exit:
  "atype a = EXIT_SCOPE \<Longrightarrow>
     step mk A B e st a =
       (if scopes st = [] then Inl (IndexError, st) else Inr (st\<lparr>scopes := butlast (scopes st)\<rparr>))"
  by (simp add: step_def ENTER_SCOPE_def EXIT_SCOPE_def)

lemma step_save:
  "atype a = SAVE_MAT \<Longrightarrow> aname a = Some n \<Longrightarrow>
     step mk A B e st a = Inr (save_mat mk A B e st n)"
  by (simp add: step_def ENTER_SCOPE_def EXIT_SCOPE_def SAVE_MAT_def)

lemma run_parsed:
  "\<forall>a\<in>set as. parsed_action a \<Longrightarrow>
     (if depth_ok (length (scopes st)) as then \<exists>s. run mk A B e st as = Inr s
      else \<exists>s. run mk A B e st as = Inl (IndexError, s))"
proof (induction as arbitrary: st)
  case Nil
  show ?case by (simp add: depth_ok_Nil)
next
  case (Cons a as)
  then have pa: "parsed_action a" and rest: "\<forall>a\<in>set as. parsed_action a"
    by simp_all
  consider (enter) n where "atype a = ENTER_SCOPE" "aname a = Some n"
    | (exit) "atype a = EXIT_SCOPE"
    | (save) n where "atype a = SAVE_MAT" "aname a = Some n"
    using pa by (auto simp: parsed_action_def)
  then show ?case
  proof cases
    case enter
    show ?thesis
      using Cons.IH [OF rest, of "st\<lparr>scopes := scopes st @ [n],
               trace := trace st @ [Print White [Str (padding (length (scopes st)) @ n @ ''/'')]]\<rparr>"]
      by (simp add: step_enter [OF enter] depth_ok_enter [OF enter(1)])
  next
    case exit
    show ?thesis
    proof (cases "scopes st = []")
      case True
      then show ?thesis
        by (simp add: step_exit [OF exit] depth_ok_exit0 [OF exit])
    next
      case False
      then obtain k where k: "length (scopes st) = Suc k"
        by (cases "scopes st") simp_all
      show ?thesis
        using Cons.IH [OF rest, of "st\<lparr>scopes := butlast (scopes st)\<rparr>"] False
        by (simp add: step_exit [OF exit] k depth_ok_exit [OF exit])
    qed
  next
    case save
    have ne: "atype a \<noteq> ENTER_SCOPE" "atype a \<noteq> EXIT_SCOPE"
      using save(1) by (simp_all add: ENTER_SCOPE_def EXIT_SCOPE_def SAVE_MAT_def)
    show ?thesis
      using Cons.IH [OF rest, of "save_mat mk A B e st n"]
      by (simp add: step_save [OF save] depth_ok_other [OF ne] save_mat_scopes)
  qed
qed

lemma run_no_underflow:
  "depth_ok (length (scopes st)) as \<Longrightarrow> run mk A B e st as \<noteq> Inl (IndexError, s)"
proof (induction as arbitrary: st)
  case Nil
  show ?case by simp
next
  case (Cons a as)
  show ?case
  proof (cases "atype a = ENTER_SCOPE")
    case True
    show ?thesis
    proof (cases "aname a")
      case None
      then show ?thesis using True by (simp add: step_def)
    next
      case (Some n)
      show ?thesis
        using Cons.IH [of "st\<lparr>scopes := scopes st @ [n],
               trace := trace st @ [Print White [Str (padding (length (scopes st)) @ n @ ''/'')]]\<rparr>"]
          Cons.prems
        by (simp add: step_enter [OF True Some] depth_ok_enter [OF True])
    qed
  next
    case notenter: False
    show ?thesis
    proof (cases "atype a = EXIT_SCOPE")
      case True
      show ?thesis
      proof (cases "scopes st = []")
        case True
        with Cons.prems \<open>atype a = EXIT_SCOPE\<close> depth_ok_exit0 [of a as] show ?thesis
          by simp
      next
        case False
        then obtain k where k: "length (scopes st) = Suc k"
          by (cases "scopes st") simp_all
        show ?thesis
          using Cons.IH [of "st\<lparr>scopes := butlast (scopes st)\<rparr>"] False Cons.prems
          by (simp add: step_exit [OF True] k depth_ok_exit [OF True])
      qed
    next
      case False
      have ok: "depth_ok (length (scopes st)) as"
        using Cons.prems depth_ok_other [OF notenter False] by simp
      show ?thesis
      proof (cases "atype a = SAVE_MAT")
        case True
        show ?thesis
        proof (cases "aname a")
          case None
          then show ?thesis using True notenter False by (simp add: step_def)
        next
          case (Some n)
          show ?thesis
            using Cons.IH [of "save_mat mk A B e st n"] ok
            by (simp add: step_save [OF True Some] save_mat_scopes)
        qed
      next
        case nosave: False
        show ?thesis using notenter False nosave by (simp add: step_def)
      qed
    qed
  qed
qed

text \<open>
Claim C4. On a balanced flow the replay never fails with the stack underflow, and a balanced
  flow of well-formed actions is replayed to the end. A flow of well-formed actions that is not
  balanced ends in the uncaught \<^verbatim>\<open>IndexError\<close>; and in any flow, an exit reached with
  an empty scope stack ends the replay with that exception, in the state reached so far.
\<close>

theorem scope_underflow_fatal:
  "(balanced (flow ml) \<longrightarrow> (\<forall>s. compare mk F ml tmp_dir1 tmp_dir2 \<noteq> Inl (IndexError, s)))
   \<and> ((\<forall>a\<in>set (flow ml). parsed_action a) \<and> balanced (flow ml)
        \<longrightarrow> (\<exists>s. compare mk F ml tmp_dir1 tmp_dir2 = Inr s))
   \<and> ((\<forall>a\<in>set (flow ml). parsed_action a) \<and> \<not> balanced (flow ml)
        \<longrightarrow> (\<exists>s. compare mk F ml tmp_dir1 tmp_dir2 = Inl (IndexError, s)))
   \<and> (\<forall>pre a post st.
         flow ml = pre @ a # post \<and> atype a = EXIT_SCOPE
         \<and> run mk tmp_dir1 tmp_dir2 (ext ml) \<lparr>scopes = [], trace = [], fs = F\<rparr> pre = Inr st
         \<and> scopes st = []
         \<longrightarrow> compare mk F ml tmp_dir1 tmp_dir2 = Inl (IndexError, st))"
proof (intro conjI)
  show "balanced (flow ml) \<longrightarrow> (\<forall>s. compare mk F ml tmp_dir1 tmp_dir2 \<noteq> Inl (IndexError, s))"
    using run_no_underflow [of "\<lparr>scopes = [], trace = [], fs = F\<rparr>" "flow ml"]
    by (simp add: balanced_def compare_def)
  show "(\<forall>a\<in>set (flow ml). parsed_action a) \<and> balanced (flow ml)
        \<longrightarrow> (\<exists>s. compare mk F ml tmp_dir1 tmp_dir2 = Inr s)"
    using run_parsed [of "flow ml" "\<lparr>scopes = [], trace = [], fs = F\<rparr>"]
    by (simp add: balanced_def compare_def)
  show "(\<forall>a\<in>set (flow ml). parsed_action a) \<and> \<not> balanced (flow ml)
        \<longrightarrow> (\<exists>s. compare mk F ml tmp_dir1 tmp_dir2 = Inl (IndexError, s))"
    using run_parsed [of "flow ml" "\<lparr>scopes = [], trace = [], fs = F\<rparr>"]
    by (simp add: balanced_def compare_def)
  show "\<forall>pre a post st.
         flow ml = pre @ a # post \<and> atype a = EXIT_SCOPE
         \<and> run mk tmp_dir1 tmp_dir2 (ext ml) \<lparr>scopes = [], trace = [], fs = F\<rparr> pre = Inr st
         \<and> scopes st = []
         \<longrightarrow> compare mk F ml tmp_dir1 tmp_dir2 = Inl (IndexError, st)"
    by (simp add: compare_def run_append step_exit)
qed

subsection \<open>Missing files\<close>

lemma save_mat_missing:
  "\<not> (isfile (fs st) (entry_path A (scopes st) n e) \<and> isfile (fs st) (entry_path B (scopes st) n e)) \<Longrightarrow>
     save_mat mk A B e st n =
       st\<lparr>trace := trace st
            @ (if isfile (fs st) (entry_path A (scopes st) n e)
               then [IsFile (entry_path A (scopes st) n e), IsFile (entry_path B (scopes st) n e)]
               else [IsFile (entry_path A (scopes st) n e)])
            @ [missing_line (entry_path A (scopes st) n e) (entry_path B (scopes st) n e)]\<rparr>"
  by (auto simp: save_mat_def entry_path_def Let_def)

lemma save_mat_try:
  assumes "isfile (fs st) (entry_path A (scopes st) n e)"
    and "isfile (fs st) (entry_path B (scopes st) n e)"
    and "try_block mk A (scopes st) n e (entry_path A (scopes st) n e)
           (entry_path B (scopes st) n e) (fs st) = (evs, F', r)"
  shows "save_mat mk A B e st n =
       st\<lparr>trace := trace st
            @ [IsFile (entry_path A (scopes st) n e), IsFile (entry_path B (scopes st) n e)]
            @ evs
            @ (case r of None \<Rightarrow> [] | Some x \<Rightarrow> [error_line (scopes st) n e x])\<rparr>"
proof -
  have "F' = fs st"
    using assms(3) by (rule try_block_fs)
  then show ?thesis
    using assms by (cases r) (simp_all add: save_mat_def entry_path_def Let_def)
qed

lemma load_mat_Mat: "F p = Some (Mat xs) \<Longrightarrow> load_mat F p = Inr xs"
  by (simp add: load_mat_def)

lemma isfile_Some: "F p = Some x \<Longrightarrow> isfile F p"
  by (simp add: isfile_def)

text \<open>
Claim C7. When one of the two files of an entry is missing, the turn of the loop tests the
  files (the second only when the first exists) and prints the line
  \<^verbatim>\<open>Cannot find file matrices:\<close> with both candidate paths in it; it loads and compares
  nothing, raises nothing, and the replay goes on with the next action.
\<close>

theorem missing_file_diagnostic:
  assumes "atype a = SAVE_MAT" and "aname a = Some n"
    and "\<not> (isfile (fs st) (entry_path tmp_dir1 (scopes st) n e)
            \<and> isfile (fs st) (entry_path tmp_dir2 (scopes st) n e))"
  shows "\<exists>evs. set evs \<subseteq> {IsFile (entry_path tmp_dir1 (scopes st) n e),
                          IsFile (entry_path tmp_dir2 (scopes st) n e)}
     \<and> step mk tmp_dir1 tmp_dir2 e st a =
         Inr (st\<lparr>trace := trace st @ evs
                    @ [Print Plain
                         [Str (''Cannot find file matrices: '' @ dq),
                          Str (entry_path tmp_dir1 (scopes st) n e),
                          Str (dq @ '' or '' @ dq),
                          Str (entry_path tmp_dir2 (scopes st) n e),
                          Str dq]]\<rparr>)
     \<and> run mk tmp_dir1 tmp_dir2 e st (a # rest) =
         run mk tmp_dir1 tmp_dir2 e
           (st\<lparr>trace := trace st @ evs
                    @ [Print Plain
                         [Str (''Cannot find file matrices: '' @ dq),
                          Str (entry_path tmp_dir1 (scopes st) n e),
                          Str (dq @ '' or '' @ dq),
                          Str (entry_path tmp_dir2 (scopes st) n e),
                          Str dq]]\<rparr>) rest"
proof -
  let ?p1 = "entry_path tmp_dir1 (scopes st) n e"
  let ?p2 = "entry_path tmp_dir2 (scopes st) n e"
  let ?evs = "if isfile (fs st) ?p1 then [IsFile ?p1, IsFile ?p2] else [IsFile ?p1]"
  let ?line = "Print Plain [Str (''Cannot find file matrices: '' @ dq), Str ?p1,
                            Str (dq @ '' or '' @ dq), Str ?p2, Str dq]"
  have s: "step mk tmp_dir1 tmp_dir2 e st a = Inr (st\<lparr>trace := trace st @ ?evs @ [?line]\<rparr>)"
    using save_mat_missing [OF assms(3), of mk]
    by (simp add: step_save [OF assms(1,2)] missing_line_def)
  have "set ?evs \<subseteq> {IsFile ?p1, IsFile ?p2}"
    by simp
  moreover have "run mk tmp_dir1 tmp_dir2 e st (a # rest) =
      run mk tmp_dir1 tmp_dir2 e (st\<lparr>trace := trace st @ ?evs @ [?line]\<rparr>) rest"
    by (simp add: s)
  ultimately show ?thesis
    using s by blast
qed

subsection \<open>The events of a matrix entry\<close>

lemma try_block_events:
  "try_block mk A sc n e p1 p2 F = (evs, F', r) \<Longrightarrow> ev \<in> set evs \<Longrightarrow>
     (\<forall>p. ev \<noteq> IsFile p) \<and> (\<forall>p. ev = LoadMat p \<longrightarrow> p = p1 \<or> p = p2)
     \<and> \<not> is_scope_line ev \<and> \<not> is_write ev"
  by (auto simp: try_block_def Let_def cv2_tuple is_scope_line_def is_write_def
      split: sum.splits option.splits if_splits)

lemma try_block_lines:
  "try_block mk A sc n e p1 p2 F = (evs, F', r) \<Longrightarrow>
     length (filter is_entry_line evs) \<le> 1
     \<and> (r = None \<longrightarrow> length (filter is_entry_line evs) = 1)"
  by (auto simp: try_block_def Let_def cv2_tuple is_entry_line_def
      split: sum.splits option.splits if_splits)

lemma step_scopes:
  "step mk A B e st a = Inr st' \<Longrightarrow>
     scopes st' =
       (if atype a = ENTER_SCOPE then scopes st @ [the (aname a)]
        else if atype a = EXIT_SCOPE then butlast (scopes st)
        else scopes st)"
  by (auto simp: step_def save_mat_scopes split: option.splits if_splits)

lemma run_scopes:
  "run mk A B e st as = Inr st' \<Longrightarrow> scopes st' = stack_after (scopes st) as"
proof (induction as arbitrary: st)
  case Nil
  then show ?case by simp
next
  case (Cons a as)
  then obtain st1 where s: "step mk A B e st a = Inr st1"
    and r: "run mk A B e st1 as = Inr st'"
    by (auto split: sum.splits)
  show ?case
    using Cons.IH [OF r] step_scopes [OF s] by simp
qed

lemma join_step_suffix: "\<exists>d. join_step path b = d @ b"
  by (simp add: join_step_def)

lemma os_path_join_suffix: "\<exists>d. os_path_join a (p @ [b]) = d @ b"
  by (simp add: os_path_join_def join_step_suffix)

lemma save_mat_trace:
  "\<exists>evs. save_mat mk A B e st n =
            st\<lparr>trace := trace st @ IsFile (entry_path A (scopes st) n e) # evs\<rparr>
     \<and> (IsFile (entry_path B (scopes st) n e) \<in> set evs
        \<or> missing_line (entry_path A (scopes st) n e) (entry_path B (scopes st) n e) \<in> set evs)
     \<and> (\<forall>p. IsFile p \<in> set evs \<or> LoadMat p \<in> set evs
            \<longrightarrow> p = entry_path A (scopes st) n e \<or> p = entry_path B (scopes st) n e)
     \<and> (\<forall>ev\<in>set evs. \<not> is_scope_line ev \<and> \<not> is_write ev)
     \<and> 1 \<le> length (filter is_entry_line evs) \<and> length (filter is_entry_line evs) \<le> 2"
proof (cases "isfile (fs st) (entry_path A (scopes st) n e)
            \<and> isfile (fs st) (entry_path B (scopes st) n e)")
  case False
  let ?p1 = "entry_path A (scopes st) n e"
  let ?p2 = "entry_path B (scopes st) n e"
  let ?evs = "(if isfile (fs st) ?p1 then [IsFile ?p2] else []) @ [missing_line ?p1 ?p2]"
  have eq: "save_mat mk A B e st n = st\<lparr>trace := trace st @ IsFile ?p1 # ?evs\<rparr>"
    using save_mat_missing [OF False, of mk] by simp
  have m: "missing_line ?p1 ?p2 \<in> set ?evs"
    by simp
  have paths: "\<forall>p. IsFile p \<in> set ?evs \<or> LoadMat p \<in> set ?evs \<longrightarrow> p = ?p1 \<or> p = ?p2"
    by (simp add: missing_line_def)
  have kinds: "\<forall>ev\<in>set ?evs. \<not> is_scope_line ev \<and> \<not> is_write ev"
    by (simp add: missing_line_def is_scope_line_def is_write_def)
  have cnt: "1 \<le> length (filter is_entry_line ?evs) \<and> length (filter is_entry_line ?evs) \<le> 2"
    by (simp add: missing_line_def is_entry_line_def)
  from eq m paths kinds cnt show ?thesis
    by blast
next
  case True
  let ?p1 = "entry_path A (scopes st) n e"
  let ?p2 = "entry_path B (scopes st) n e"
  obtain evs F' r where t: "try_block mk A (scopes st) n e ?p1 ?p2 (fs st) = (evs, F', r)"
    by (cases "try_block mk A (scopes st) n e ?p1 ?p2 (fs st)") auto
  let ?tail = "case r of None \<Rightarrow> [] | Some x \<Rightarrow> [error_line (scopes st) n e x]"
  let ?evs = "IsFile ?p2 # evs @ ?tail"
  have eq: "save_mat mk A B e st n = st\<lparr>trace := trace st @ IsFile ?p1 # ?evs\<rparr>"
    using save_mat_try [OF conjunct1 [OF True] conjunct2 [OF True] t] by simp
  have ev: "\<And>ev. ev \<in> set evs \<Longrightarrow>
     (\<forall>p. ev \<noteq> IsFile p) \<and> (\<forall>p. ev = LoadMat p \<longrightarrow> p = ?p1 \<or> p = ?p2)
     \<and> \<not> is_scope_line ev \<and> \<not> is_write ev"
    using try_block_events [OF t] by blast
  have tl: "\<And>ev. ev \<in> set ?tail \<Longrightarrow>
     (\<forall>p. ev \<noteq> IsFile p) \<and> (\<forall>p. ev \<noteq> LoadMat p) \<and> \<not> is_scope_line ev \<and> \<not> is_write ev"
    by (cases r) (simp_all add: error_line_def is_scope_line_def is_write_def)
  have paths: "\<forall>p. IsFile p \<in> set ?evs \<or> LoadMat p \<in> set ?evs \<longrightarrow> p = ?p1 \<or> p = ?p2"
    using ev tl by auto
  have kinds: "\<forall>ev\<in>set ?evs. \<not> is_scope_line ev \<and> \<not> is_write ev"
    using ev tl by (auto simp: is_scope_line_def is_write_def)
  have n: "length (filter is_entry_line ?evs)
      = length (filter is_entry_line evs) + length (filter is_entry_line ?tail)"
    by (simp add: is_entry_line_def)
  have nt: "length (filter is_entry_line ?tail) = (case r of None \<Rightarrow> 0 | Some x \<Rightarrow> 1)"
    by (cases r) (simp_all add: error_line_def is_entry_line_def)
  have cnt: "1 \<le> length (filter is_entry_line ?evs) \<and> length (filter is_entry_line ?evs) \<le> 2"
    using try_block_lines [OF t] n nt by (cases r) auto
  have "IsFile ?p2 \<in> set ?evs"
    by simp
  with eq paths kinds cnt show ?thesis
    by blast
qed

subsection \<open>The parser and the scope stack on the scenarios\<close>

lemmas text_defs = file_lines_def readline_def add_line_def strip_def is_space_def
  ENTER_SCOPE_def EXIT_SCOPE_def SAVE_MAT_def

lemma example_parsed:
  "MatList_init example_manifest =
     \<lparr>ext = ''.yml'',
      flow = [\<lparr>atype = SAVE_MAT, aname = Some ''a''\<rparr>, \<lparr>atype = ENTER_SCOPE, aname = Some ''g''\<rparr>,
              \<lparr>atype = SAVE_MAT, aname = Some ''b''\<rparr>, \<lparr>atype = EXIT_SCOPE, aname = None\<rparr>]\<rparr>"
  by (simp add: MatList_init_def example_manifest_def text_defs)

lemma a_parsed:
  "MatList_init manifest_a = \<lparr>ext = ''.yml'', flow = [save_a]\<rparr>"
  by (simp add: MatList_init_def manifest_a_def save_a_def text_defs)

lemma scope_parsed:
  "MatList_init manifest_scope =
     \<lparr>ext = ''.yml'',
      flow = [\<lparr>atype = ENTER_SCOPE, aname = Some ''g''\<rparr>, \<lparr>atype = EXIT_SCOPE, aname = None\<rparr>]\<rparr>"
  by (simp add: MatList_init_def manifest_scope_def text_defs)

lemma underflow_parsed:
  "MatList_init manifest_underflow =
     \<lparr>ext = ''.yml'', flow = [\<lparr>atype = EXIT_SCOPE, aname = None\<rparr>]\<rparr>"
  by (simp add: MatList_init_def manifest_underflow_def text_defs)

theorem manifest_parser_grammar_witness:
  "MatList_init example_manifest =
     \<lparr>ext = ''.yml'',
      flow = map action_of [SaveEntry ''a'', EnterScope ''g'', SaveEntry ''b'', ExitScope]\<rparr>"
proof -
  have "spec_manifest (file_lines example_manifest) =
      (''.yml'', [SaveEntry ''a'', EnterScope ''g'', SaveEntry ''b'', ExitScope])"
    by (simp add: spec_manifest_def spec_line_def example_manifest_def file_lines_def
        strip_def is_space_def)
  then show ?thesis
    using manifest_parser_grammar [of example_manifest] by simp
qed

theorem parsed_flow_never_unknown_witness:
  "flow (MatList_init example_manifest) \<noteq> []
   \<and> atype (hd (flow (MatList_init example_manifest))) = SAVE_MAT
   \<and> compare no_fail fs_same (MatList_init example_manifest) ''A'' ''B''
        \<noteq> Inl (UnknownActionType, init_state fs_same)"
proof -
  have "flow (MatList_init example_manifest) \<noteq> []"
    and "atype (hd (flow (MatList_init example_manifest))) = SAVE_MAT"
    by (simp_all add: example_parsed)
  then show ?thesis
    using parsed_flow_never_unknown [of example_manifest no_fail fs_same "''A''" "''B''"] by blast
qed

lemma example_balanced: "balanced (flow (MatList_init example_manifest))"
  by (simp add: example_parsed balanced_def depth_ok_def count_type_def
      ENTER_SCOPE_def EXIT_SCOPE_def SAVE_MAT_def)

lemma underflow_unbalanced: "\<not> balanced (flow (MatList_init manifest_underflow))"
  by (simp add: underflow_parsed balanced_def depth_ok_def count_type_def
      ENTER_SCOPE_def EXIT_SCOPE_def SAVE_MAT_def)

theorem scope_underflow_fatal_witness:
  "balanced (flow (MatList_init example_manifest))
   \<and> (\<exists>s. compare no_fail fs_same (MatList_init example_manifest) ''A'' ''B'' = Inr s)
   \<and> \<not> balanced (flow (MatList_init manifest_underflow))
   \<and> compare no_fail fs_same (MatList_init manifest_underflow) ''A'' ''B''
       = Inl (IndexError, \<lparr>scopes = [], trace = [], fs = fs_same\<rparr>)"
proof -
  have p1: "\<forall>a\<in>set (flow (MatList_init example_manifest)). parsed_action a"
    using parsed_flow by blast
  have ok: "\<exists>s. compare no_fail fs_same (MatList_init example_manifest) ''A'' ''B'' = Inr s"
    using scope_underflow_fatal [of "MatList_init example_manifest" no_fail fs_same "''A''" "''B''"]
      p1 example_balanced by blast
  have fl: "flow (MatList_init manifest_underflow) = [] @ \<lparr>atype = EXIT_SCOPE, aname = None\<rparr> # []"
    by (simp add: underflow_parsed)
  have "compare no_fail fs_same (MatList_init manifest_underflow) ''A'' ''B''
       = Inl (IndexError, \<lparr>scopes = [], trace = [], fs = fs_same\<rparr>)"
    using scope_underflow_fatal [of "MatList_init manifest_underflow" no_fail fs_same "''A''" "''B''"] fl
    by (metis action.select_convs(1) run.simps(1) state.select_convs(1))
  with ok example_balanced underflow_unbalanced show ?thesis
    by blast
qed

theorem missing_file_diagnostic_witness:
  "\<exists>evs. set evs \<subseteq> {IsFile ''A/a.yml'', IsFile ''B/a.yml''}
     \<and> step no_fail ''A'' ''B'' ''.yml'' (init_state Map.empty) save_a =
         Inr ((init_state Map.empty)\<lparr>trace := evs
                @ [Print Plain
                     [Str (''Cannot find file matrices: '' @ dq), Str ''A/a.yml'',
                      Str (dq @ '' or '' @ dq), Str ''B/a.yml'', Str dq]]\<rparr>)"
proof -
  have p: "entry_path ''A'' [] ''a'' ''.yml'' = ''A/a.yml''"
    "entry_path ''B'' [] ''a'' ''.yml'' = ''B/a.yml''"
    by (simp_all add: entry_path_def os_path_join_def join_step_def)
  have h: "\<not> (isfile (fs (init_state Map.empty)) (entry_path ''A'' (scopes (init_state Map.empty)) ''a'' ''.yml'')
            \<and> isfile (fs (init_state Map.empty)) (entry_path ''B'' (scopes (init_state Map.empty)) ''a'' ''.yml''))"
    by (simp add: init_state_def isfile_def)
  have t: "atype save_a = SAVE_MAT" "aname save_a = Some ''a''"
    by (simp_all add: save_a_def)
  show ?thesis
    using missing_file_diagnostic [OF t h, of no_fail "[]"] by (simp add: p init_state_def) blast
qed

subsection \<open>The paths of an entry\<close>

text \<open>
Claim C6. When the replay reaches a matrix entry, the scope stack is the one the actions
  before it have built, and the two paths the turn tests, loads and reports are
  \<^verbatim>\<open>os.path.join\<close> of a root, the scopes of that stack and the name with the extension
  appended to it: each path ends with the name followed directly by the extension.
\<close>

theorem entry_paths_joined:
  assumes "run mk tmp_dir1 tmp_dir2 e st0 pre = Inr st"
    and "atype a = SAVE_MAT" and "aname a = Some n"
  shows "scopes st = stack_after (scopes st0) pre
    \<and> (\<exists>evs.
          run mk tmp_dir1 tmp_dir2 e st0 (pre @ a # post) =
            run mk tmp_dir1 tmp_dir2 e
              (st\<lparr>trace := trace st @ IsFile (os_path_join tmp_dir1 (scopes st @ [n @ e])) # evs\<rparr>)
              post
        \<and> (IsFile (os_path_join tmp_dir2 (scopes st @ [n @ e])) \<in> set evs
           \<or> Print Plain
                [Str (''Cannot find file matrices: '' @ dq),
                 Str (os_path_join tmp_dir1 (scopes st @ [n @ e])),
                 Str (dq @ '' or '' @ dq),
                 Str (os_path_join tmp_dir2 (scopes st @ [n @ e])),
                 Str dq] \<in> set evs)
        \<and> (\<forall>p. IsFile p \<in> set evs \<or> LoadMat p \<in> set evs \<longrightarrow>
               p = os_path_join tmp_dir1 (scopes st @ [n @ e])
               \<or> p = os_path_join tmp_dir2 (scopes st @ [n @ e])))
    \<and> (\<exists>d1 d2. os_path_join tmp_dir1 (scopes st @ [n @ e]) = d1 @ n @ e
               \<and> os_path_join tmp_dir2 (scopes st @ [n @ e]) = d2 @ n @ e)"
proof (intro conjI)
  show "scopes st = stack_after (scopes st0) pre"
    using assms(1) by (rule run_scopes)
  have r: "run mk tmp_dir1 tmp_dir2 e st0 (pre @ a # post) =
      run mk tmp_dir1 tmp_dir2 e (save_mat mk tmp_dir1 tmp_dir2 e st n) post"
    by (simp add: run_append assms(1) step_save [OF assms(2,3)])
  show "\<exists>evs.
          run mk tmp_dir1 tmp_dir2 e st0 (pre @ a # post) =
            run mk tmp_dir1 tmp_dir2 e
              (st\<lparr>trace := trace st @ IsFile (os_path_join tmp_dir1 (scopes st @ [n @ e])) # evs\<rparr>)
              post
        \<and> (IsFile (os_path_join tmp_dir2 (scopes st @ [n @ e])) \<in> set evs
           \<or> Print Plain
                [Str (''Cannot find file matrices: '' @ dq),
                 Str (os_path_join tmp_dir1 (scopes st @ [n @ e])),
                 Str (dq @ '' or '' @ dq),
                 Str (os_path_join tmp_dir2 (scopes st @ [n @ e])),
                 Str dq] \<in> set evs)
        \<and> (\<forall>p. IsFile p \<in> set evs \<or> LoadMat p \<in> set evs \<longrightarrow>
               p = os_path_join tmp_dir1 (scopes st @ [n @ e])
               \<or> p = os_path_join tmp_dir2 (scopes st @ [n @ e]))"
  proof -
    obtain evs where evs:
      "save_mat mk tmp_dir1 tmp_dir2 e st n =
         st\<lparr>trace := trace st @ IsFile (entry_path tmp_dir1 (scopes st) n e) # evs\<rparr>"
      "IsFile (entry_path tmp_dir2 (scopes st) n e) \<in> set evs
       \<or> missing_line (entry_path tmp_dir1 (scopes st) n e)
                       (entry_path tmp_dir2 (scopes st) n e) \<in> set evs"
      "\<forall>p. IsFile p \<in> set evs \<or> LoadMat p \<in> set evs
           \<longrightarrow> p = entry_path tmp_dir1 (scopes st) n e \<or> p = entry_path tmp_dir2 (scopes st) n e"
      using save_mat_trace [of mk tmp_dir1 tmp_dir2 e st n] by blast
    show ?thesis
      using evs unfolding r
      by (intro exI [of _ evs]) (simp add: entry_path_def missing_line_def)
  qed
  show "\<exists>d1 d2. os_path_join tmp_dir1 (scopes st @ [n @ e]) = d1 @ n @ e
               \<and> os_path_join tmp_dir2 (scopes st @ [n @ e]) = d2 @ n @ e"
    using os_path_join_suffix [of tmp_dir1 "scopes st" "n @ e"]
      os_path_join_suffix [of tmp_dir2 "scopes st" "n @ e"] by blast
qed

subsection \<open>The lines of a completed replay\<close>

lemma step_lines:
  assumes "step mk A B e st a = Inr st'"
  shows "\<exists>evs. trace st' = trace st @ evs \<and> fs st' = fs st
     \<and> length (filter is_scope_line evs) = (if atype a = ENTER_SCOPE then 1 else 0)
     \<and> (if atype a = SAVE_MAT then 1 else 0) \<le> length (filter is_entry_line evs)
     \<and> length (filter is_entry_line evs) \<le> (if atype a = SAVE_MAT then 2 else 0)
     \<and> (\<forall>ev\<in>set evs. \<not> is_write ev)"
proof -
  consider (enter) n where "atype a = ENTER_SCOPE" "aname a = Some n"
    | (exit) "atype a = EXIT_SCOPE" "scopes st \<noteq> []"
    | (save) n where "atype a = SAVE_MAT" "aname a = Some n"
    using assms
    by (auto simp: step_def Let_def split: if_splits option.splits)
  then show ?thesis
  proof cases
    case enter
    have "trace st' = trace st @ [Print White [Str (padding (length (scopes st)) @ n @ ''/'')]]"
      and "fs st' = fs st"
      using assms by (auto simp: step_enter [OF enter])
    then show ?thesis
      using enter(1)
      by (simp add: is_scope_line_def is_entry_line_def is_write_def
          ENTER_SCOPE_def SAVE_MAT_def)
  next
    case exit
    have "trace st' = trace st @ []" and "fs st' = fs st"
      using assms exit(2) by (auto simp: step_exit [OF exit(1)])
    then show ?thesis
      using exit(1) by (simp add: ENTER_SCOPE_def EXIT_SCOPE_def SAVE_MAT_def)
  next
    case save
    have st': "st' = save_mat mk A B e st n"
      using assms by (simp add: step_save [OF save])
    obtain evs where evs: "save_mat mk A B e st n =
            st\<lparr>trace := trace st @ IsFile (entry_path A (scopes st) n e) # evs\<rparr>"
      "\<forall>ev\<in>set evs. \<not> is_scope_line ev \<and> \<not> is_write ev"
      "1 \<le> length (filter is_entry_line evs)" "length (filter is_entry_line evs) \<le> 2"
      using save_mat_trace [of mk A B e st n] by blast
    let ?evs = "IsFile (entry_path A (scopes st) n e) # evs"
    have "trace st' = trace st @ ?evs" "fs st' = fs st"
      using st' evs(1) by simp_all
    moreover have "filter is_scope_line ?evs = []"
      using evs(2) by (auto simp: is_scope_line_def filter_empty_conv)
    moreover have "length (filter is_entry_line ?evs) = length (filter is_entry_line evs)"
      by (simp add: is_entry_line_def)
    moreover have "\<forall>ev\<in>set ?evs. \<not> is_write ev"
      using evs(2) by (simp add: is_write_def)
    ultimately show ?thesis
      using save(1) evs(3,4)
      by (intro exI [of _ ?evs]) (simp add: ENTER_SCOPE_def SAVE_MAT_def)
  qed
qed

lemma run_lines:
  "run mk A B e st as = Inr s \<Longrightarrow>
     length (filter is_scope_line (trace s))
       = length (filter is_scope_line (trace st)) + count_type ENTER_SCOPE as
     \<and> length (filter is_entry_line (trace st)) + count_type SAVE_MAT as
         \<le> length (filter is_entry_line (trace s))
     \<and> length (filter is_entry_line (trace s))
         \<le> length (filter is_entry_line (trace st)) + 2 * count_type SAVE_MAT as
     \<and> fs s = fs st
     \<and> length (filter is_write (trace s)) = length (filter is_write (trace st))"
proof (induction as arbitrary: st)
  case Nil
  then show ?case by (simp add: count_type_Nil)
next
  case (Cons a as)
  then obtain st1 where s: "step mk A B e st a = Inr st1"
    and r: "run mk A B e st1 as = Inr s"
    by (auto split: sum.splits)
  obtain evs where evs: "trace st1 = trace st @ evs" "fs st1 = fs st"
    "length (filter is_scope_line evs) = (if atype a = ENTER_SCOPE then 1 else 0)"
    "(if atype a = SAVE_MAT then 1 else 0) \<le> length (filter is_entry_line evs)"
    "length (filter is_entry_line evs) \<le> (if atype a = SAVE_MAT then 2 else 0)"
    "\<forall>ev\<in>set evs. \<not> is_write ev"
    using step_lines [OF s] by blast
  have w: "filter is_write evs = []"
    using evs(6) by (simp add: filter_empty_conv)
  show ?case
    using Cons.IH [OF r] evs(1-5) w
    by (auto simp: count_type_Cons)
qed

text \<open>
Claim C8, amended. A completed replay prints exactly one scope line for each action that
  enters a scope and one or two lines (a result, a missing-file or an error line) for each
  matrix entry; leaving a scope prints nothing.
\<close>

theorem output_lines_per_action:
  assumes "compare mk F ml tmp_dir1 tmp_dir2 = Inr s"
  shows "length (filter is_scope_line (trace s)) = count_type ENTER_SCOPE (flow ml)
     \<and> count_type SAVE_MAT (flow ml) \<le> length (filter is_entry_line (trace s))
     \<and> length (filter is_entry_line (trace s)) \<le> 2 * count_type SAVE_MAT (flow ml)
     \<and> (\<forall>st a st'. atype a = EXIT_SCOPE \<and> step mk tmp_dir1 tmp_dir2 (ext ml) st a = Inr st'
           \<longrightarrow> trace st' = trace st)"
proof -
  have "\<forall>st a st'. atype a = EXIT_SCOPE \<and> step mk tmp_dir1 tmp_dir2 (ext ml) st a = Inr st'
           \<longrightarrow> trace st' = trace st"
    by (auto simp: step_exit split: if_splits)
  then show ?thesis
    using run_lines [OF assms [unfolded compare_def]] by simp
qed

subsection \<open>The class of a distance\<close>

lemma save_mat_loaded:
  assumes "fs st (entry_path A (scopes st) n e) = Some (Mat m1)"
    and "fs st (entry_path B (scopes st) n e) = Some (Mat m2)"
    and "try_block mk A (scopes st) n e (entry_path A (scopes st) n e)
           (entry_path B (scopes st) n e) (fs st) = (evs, F', r)"
  shows "save_mat mk A B e st n =
       st\<lparr>trace := trace st
            @ [IsFile (entry_path A (scopes st) n e), IsFile (entry_path B (scopes st) n e)]
            @ evs
            @ (case r of None \<Rightarrow> [] | Some x \<Rightarrow> [error_line (scopes st) n e x])\<rparr>"
proof -
  have "isfile (fs st) (entry_path A (scopes st) n e)"
    and "isfile (fs st) (entry_path B (scopes st) n e)"
    using assms(1,2) by (simp_all add: isfile_def)
  then show ?thesis
    using assms(3) by (rule save_mat_try)
qed

lemma classify_colour:
  "colour_of (classify d) =
     (if fl_lt d (Fin 0.001) then Green else if fl_lt d (Fin 10.0) then Yellow else Red)"
  by (cases d) (simp_all add: classify_def fl_le_def)

lemma classify_cases:
  "(fl_lt d (Fin 0.001) \<longrightarrow> classify d = Identical)
   \<and> (fl_le (Fin 0.001) d \<and> fl_lt d (Fin 10.0) \<longrightarrow> classify d = Minor)
   \<and> (fl_le (Fin 10.0) d \<longrightarrow> classify d = Major)"
  by (cases d) (auto simp: classify_def fl_le_def)

text \<open>
Claim C2. For an entry whose two arrays load and subtract to a non-empty difference, the
  result line carries the distance and is printed in the colour of its class: green
  (Identical) below 0.001, yellow (Minor) from 0.001 up to but not including 10, red (Major)
  from 10 on; 0.001 itself is Minor and 10 itself is Major. Every later line of the turn is
  a diagnostic without colour.
\<close>

theorem classification_boundaries:
  assumes "atype a = SAVE_MAT" and "aname a = Some n"
    and "fs st (entry_path tmp_dir1 (scopes st) n e) = Some (Mat m1)"
    and "fs st (entry_path tmp_dir2 (scopes st) n e) = Some (Mat m2)"
    and "np_sub m2 m1 = Inr dm" and "dm \<noteq> []"
  shows "(\<exists>t evs.
        step mk tmp_dir1 tmp_dir2 e st a =
          Inr (st\<lparr>trace := trace st
                 @ [IsFile (entry_path tmp_dir1 (scopes st) n e),
                    IsFile (entry_path tmp_dir2 (scopes st) n e),
                    LoadMat (entry_path tmp_dir1 (scopes st) n e),
                    LoadMat (entry_path tmp_dir2 (scopes st) n e),
                    Print (colour_of (classify (np_norm1 (np_abs dm)))) t]
                 @ evs\<rparr>)
        \<and> Num (np_norm1 (np_abs dm)) \<in> set t
        \<and> (\<forall>c u. Print c u \<in> set evs \<longrightarrow> c = Plain))
     \<and> (fl_lt (np_norm1 (np_abs dm)) (Fin 0.001)
          \<longrightarrow> classify (np_norm1 (np_abs dm)) = Identical)
     \<and> (fl_le (Fin 0.001) (np_norm1 (np_abs dm)) \<and> fl_lt (np_norm1 (np_abs dm)) (Fin 10.0)
          \<longrightarrow> classify (np_norm1 (np_abs dm)) = Minor)
     \<and> (fl_le (Fin 10.0) (np_norm1 (np_abs dm)) \<longrightarrow> classify (np_norm1 (np_abs dm)) = Major)
     \<and> classify (Fin 0.001) = Minor \<and> classify (Fin 10.0) = Major"
proof -
  let ?p1 = "entry_path tmp_dir1 (scopes st) n e"
  let ?p2 = "entry_path tmp_dir2 (scopes st) n e"
  let ?d = "np_norm1 (np_abs dm)"
  have l1: "load_mat (fs st) ?p1 = Inr m1" and l2: "load_mat (fs st) ?p2 = Inr m2"
    using assms(3,4) by (simp_all add: load_mat_Mat)
  have main: "\<exists>t evs.
        step mk tmp_dir1 tmp_dir2 e st a =
          Inr (st\<lparr>trace := trace st
                 @ [IsFile ?p1, IsFile ?p2, LoadMat ?p1, LoadMat ?p2,
                    Print (colour_of (classify ?d)) t]
                 @ evs\<rparr>)
        \<and> Num ?d \<in> set t
        \<and> (\<forall>c u. Print c u \<in> set evs \<longrightarrow> c = Plain)"
  proof (cases "fl_lt ?d (Fin 0.001)")
    case True
    let ?t = "[Str (padding (length (scopes st))), Str n, Str '': d='', Num ?d]"
    have "save_mat mk tmp_dir1 tmp_dir2 e st n =
        st\<lparr>trace := trace st @ [IsFile ?p1, IsFile ?p2, LoadMat ?p1, LoadMat ?p2,
             Print (colour_of (classify ?d)) ?t] @ []\<rparr>"
      using save_mat_loaded [OF assms(3,4) try_block_green [OF l1 l2 assms(5,6) True]] True
      by (simp add: classify_colour)
    then have "step mk tmp_dir1 tmp_dir2 e st a =
        Inr (st\<lparr>trace := trace st @ [IsFile ?p1, IsFile ?p2, LoadMat ?p1, LoadMat ?p2,
             Print (colour_of (classify ?d)) ?t] @ []\<rparr>)
        \<and> Num ?d \<in> set ?t \<and> (\<forall>c u. Print c u \<in> set [] \<longrightarrow> c = Plain)"
      by (simp add: step_save [OF assms(1,2)])
    then show ?thesis
      by blast
  next
    case False
    let ?dd = "os_path_join tmp_dir1 (''diff'' # scopes st)"
    let ?tup = "PTuple [PStr (os_path_join ?dd [n @ e])]"
    let ?calls = "MakeDirs ?dd # (case mk ?dd of Some x \<Rightarrow> [] | None \<Rightarrow> [OpenStorage ?tup])"
    let ?x = "case mk ?dd of Some x \<Rightarrow> x | None \<Rightarrow> BadFilename ?tup"
    obtain t where t: "try_block mk tmp_dir1 (scopes st) n e ?p1 ?p2 (fs st) =
       ([LoadMat ?p1, LoadMat ?p2, Print (if fl_lt ?d (Fin 10.0) then Yellow else Red) t, MakeDirs ?dd]
        @ (case mk ?dd of Some x \<Rightarrow> [] | None \<Rightarrow> [OpenStorage ?tup]),
        fs st, Some ?x)"
      using try_block_differ [OF l1 l2 assms(5,6) False, of mk tmp_dir1 "scopes st" n e] by blast
    have num: "Num ?d \<in> set t"
      using t assms(6) l1 l2 assms(5) False
      by (cases dm) (auto simp: try_block_def np_abs_def np_min_def np_max_def Let_def cv2_tuple
          split: option.splits if_splits)
    let ?evs = "?calls @ [error_line (scopes st) n e ?x]"
    have "save_mat mk tmp_dir1 tmp_dir2 e st n =
        st\<lparr>trace := trace st @ [IsFile ?p1, IsFile ?p2, LoadMat ?p1, LoadMat ?p2,
             Print (colour_of (classify ?d)) t] @ ?evs\<rparr>"
      using save_mat_loaded [OF assms(3,4) t] False
      by (simp add: classify_colour)
    then have s: "step mk tmp_dir1 tmp_dir2 e st a =
        Inr (st\<lparr>trace := trace st @ [IsFile ?p1, IsFile ?p2, LoadMat ?p1, LoadMat ?p2,
             Print (colour_of (classify ?d)) t] @ ?evs\<rparr>)"
      by (simp add: step_save [OF assms(1,2)])
    have "\<forall>c u. Print c u \<in> set ?evs \<longrightarrow> c = Plain"
      by (auto simp: error_line_def split: option.splits)
    with s num show ?thesis
      by blast
  qed
  have "classify (Fin 0.001) = Minor" "classify (Fin 10.0) = Major"
    by (simp_all add: classify_def fl_le_def)
  with main classify_cases [of ?d] show ?thesis
    by simp
qed

subsection \<open>Identical arrays and arrays of different lengths\<close>

lemma np_sub_same: "np_sub xs xs = Inr (map2 fl_sub xs xs)"
  by (simp add: np_sub_def)

lemma fl_sub_same: "is_finite x \<Longrightarrow> fl_abs (fl_abs (fl_sub x x)) = Fin 0"
  by (cases x) (simp_all add: is_finite_def fl_sub_def)

lemma norm_same: "list_all is_finite xs \<Longrightarrow> np_norm1 (np_abs (map2 fl_sub xs xs)) = Fin 0"
  by (induction xs) (simp_all add: np_norm1_def np_abs_def fl_sub_same)

text \<open>
Claim C9, amended. For two files that hold the same array of finite values (an array that
  loads has at least one element) the distance is 0, the class is Identical, and the turn only
  tests and loads the files and prints the green line: it creates no directory, opens no
  storage and writes nothing.
\<close>

theorem identical_arrays_green:
  assumes "atype a = SAVE_MAT" and "aname a = Some n"
    and "fs st (entry_path tmp_dir1 (scopes st) n e) = Some (Mat xs)"
    and "fs st (entry_path tmp_dir2 (scopes st) n e) = Some (Mat xs)"
    and "xs \<noteq> []" and "list_all is_finite xs"
  shows "\<exists>dm. np_sub xs xs = Inr dm \<and> np_norm1 (np_abs dm) = Fin 0
     \<and> classify (np_norm1 (np_abs dm)) = Identical
     \<and> step mk tmp_dir1 tmp_dir2 e st a =
          Inr (st\<lparr>trace := trace st
                 @ [IsFile (entry_path tmp_dir1 (scopes st) n e),
                    IsFile (entry_path tmp_dir2 (scopes st) n e),
                    LoadMat (entry_path tmp_dir1 (scopes st) n e),
                    LoadMat (entry_path tmp_dir2 (scopes st) n e),
                    Print Green [Str (padding (length (scopes st))), Str n, Str '': d='',
                                 Num (Fin 0)]]\<rparr>)"
proof -
  let ?p1 = "entry_path tmp_dir1 (scopes st) n e"
  let ?p2 = "entry_path tmp_dir2 (scopes st) n e"
  let ?dm = "map2 fl_sub xs xs"
  note z = norm_same [OF assms(6)]
  have l1: "load_mat (fs st) ?p1 = Inr xs" and l2: "load_mat (fs st) ?p2 = Inr xs"
    using assms(3,4) by (simp_all add: load_mat_Mat)
  have ne: "?dm \<noteq> []"
    using assms(5) by (cases xs) simp_all
  have small: "fl_lt (np_norm1 (np_abs ?dm)) (Fin 0.001)"
    by (simp add: z)
  have "save_mat mk tmp_dir1 tmp_dir2 e st n =
      st\<lparr>trace := trace st @ [IsFile ?p1, IsFile ?p2, LoadMat ?p1, LoadMat ?p2,
           Print Green [Str (padding (length (scopes st))), Str n, Str '': d='', Num (Fin 0)]]\<rparr>"
    using save_mat_loaded [OF assms(3,4) try_block_green [OF l1 l2 np_sub_same ne small]]
    by (simp add: z)
  then have "step mk tmp_dir1 tmp_dir2 e st a =
      Inr (st\<lparr>trace := trace st @ [IsFile ?p1, IsFile ?p2, LoadMat ?p1, LoadMat ?p2,
           Print Green [Str (padding (length (scopes st))), Str n, Str '': d='', Num (Fin 0)]]\<rparr>)"
    by (simp add: step_save [OF assms(1,2)])
  moreover have "classify (np_norm1 (np_abs ?dm)) = Identical"
    by (simp add: z classify_def)
  ultimately show ?thesis
    using np_sub_same [of xs] z by blast
qed

lemma np_sub_mismatch:
  assumes "length m1 \<noteq> length m2"
    and "\<not> (length m1 = 1 \<and> 2 \<le> length m2)"
    and "\<not> (length m2 = 1 \<and> 2 \<le> length m1)"
  shows "np_sub m2 m1 = Inl (BroadcastError (length m2) (length m1)) \<or> np_sub m2 m1 = Inr []"
proof (cases "length m1 = 1")
  case True
  with assms have "length m2 = 0"
    by arith
  then have "m2 = []"
    by simp
  then show ?thesis
    using True by (simp add: np_sub_def)
next
  case False
  show ?thesis
  proof (cases "length m2 = 1")
    case True
    with assms have "length m1 = 0"
      by arith
    then have "m1 = []"
      by simp
    then show ?thesis
      using True by (simp add: np_sub_def)
  next
    case m2: False
    show ?thesis
      using assms(1) False m2 by (simp add: np_sub_def)
  qed
qed

text \<open>
Claim C3, amended. For two arrays of different lengths, unless one has exactly one element
  and the other at least two, the turn prints the error line that names the relative path of
  the entry, writes nothing, and the replay goes on with the next action.
\<close>

theorem length_mismatch_diagnostic:
  assumes "atype a = SAVE_MAT" and "aname a = Some n"
    and "fs st (entry_path tmp_dir1 (scopes st) n e) = Some (Mat m1)"
    and "fs st (entry_path tmp_dir2 (scopes st) n e) = Some (Mat m2)"
    and "length m1 \<noteq> length m2"
    and "\<not> (length m1 = 1 \<and> 2 \<le> length m2)"
    and "\<not> (length m2 = 1 \<and> 2 \<le> length m1)"
  shows "\<exists>x. step mk tmp_dir1 tmp_dir2 e st a =
          Inr (st\<lparr>trace := trace st
                 @ [IsFile (entry_path tmp_dir1 (scopes st) n e),
                    IsFile (entry_path tmp_dir2 (scopes st) n e),
                    LoadMat (entry_path tmp_dir1 (scopes st) n e),
                    LoadMat (entry_path tmp_dir2 (scopes st) n e),
                    Print Plain [Str (''Error when comparing '' @ dq),
                                 Str (rel_path (scopes st) n e),
                                 Str (dq @ '': '' @ dq), Exc x, Str (dq @ ''.'')]]\<rparr>)
     \<and> run mk tmp_dir1 tmp_dir2 e st (a # rest) =
          run mk tmp_dir1 tmp_dir2 e
            (st\<lparr>trace := trace st
                 @ [IsFile (entry_path tmp_dir1 (scopes st) n e),
                    IsFile (entry_path tmp_dir2 (scopes st) n e),
                    LoadMat (entry_path tmp_dir1 (scopes st) n e),
                    LoadMat (entry_path tmp_dir2 (scopes st) n e),
                    Print Plain [Str (''Error when comparing '' @ dq),
                                 Str (rel_path (scopes st) n e),
                                 Str (dq @ '': '' @ dq), Exc x, Str (dq @ ''.'')]]\<rparr>) rest"
proof -
  let ?p1 = "entry_path tmp_dir1 (scopes st) n e"
  let ?p2 = "entry_path tmp_dir2 (scopes st) n e"
  have l1: "load_mat (fs st) ?p1 = Inr m1" and l2: "load_mat (fs st) ?p2 = Inr m2"
    using assms(3,4) by (simp_all add: load_mat_Mat)
  have "\<exists>x. try_block mk tmp_dir1 (scopes st) n e ?p1 ?p2 (fs st)
      = ([LoadMat ?p1, LoadMat ?p2], fs st, Some x)"
    using np_sub_mismatch [OF assms(5-7)] try_block_sub [OF l1 l2] try_block_empty [OF l1 l2]
    by blast
  then obtain x where t: "try_block mk tmp_dir1 (scopes st) n e ?p1 ?p2 (fs st)
      = ([LoadMat ?p1, LoadMat ?p2], fs st, Some x)"
    by blast
  have s: "step mk tmp_dir1 tmp_dir2 e st a =
      Inr (st\<lparr>trace := trace st @ [IsFile ?p1, IsFile ?p2, LoadMat ?p1, LoadMat ?p2,
             Print Plain [Str (''Error when comparing '' @ dq), Str (rel_path (scopes st) n e),
                          Str (dq @ '': '' @ dq), Exc x, Str (dq @ ''.'')]]\<rparr>)"
    using save_mat_loaded [OF assms(3,4) t]
    by (simp add: step_save [OF assms(1,2)] error_line_def)
  show ?thesis
    by (rule exI [of _ x]) (simp add: s)
qed

subsection \<open>The replay on the scenarios\<close>

lemmas replay_defs = compare_def step_def save_mat_def try_block_def os_path_join_def
  join_step_def isfile_def load_mat_def np_sub_def np_abs_def np_norm1_def np_min_def
  np_max_def np_average_def np_median_def np_std_def padding_def cv2_FileStorage_def
  fl_sub_def fl_le_def fl_min_def fl_max_def fl_sort_def error_line_def rel_path_def
  Let_def ENTER_SCOPE_def EXIT_SCOPE_def SAVE_MAT_def

text \<open>
Claim C1 at the scenario of the specification (\<open>[0, 0]\<close> against \<open>[5, 5]\<close>, distance 10):
  the red line is printed and the directory created, then \<^verbatim>\<open>cv2.FileStorage\<close> is given
  the one-element tuple that the trailing comma of the assignment to \<^verbatim>\<open>diff_file\<close>
  builds, raises, and the error line is printed: no file is written under \<open>A/diff\<close>.
\<close>

theorem diff_artifact_not_written:
  "compare no_fail fs_major (MatList_init manifest_a) ''A'' ''B'' =
     Inr \<lparr>scopes = [],
          trace = [IsFile ''A/a.yml'', IsFile ''B/a.yml'', LoadMat ''A/a.yml'', LoadMat ''B/a.yml'',
                   Print Red [Str [], Str ''a'', Str '': d='', Num (Fin 10),
                              Str '', min='', Num (Fin 5), Str '', max='', Num (Fin 5),
                              Str '', avg='', Num (Fin 5), Str '', median='', Num (Fin 5),
                              Str '', std='', Num (Fin 0)],
                   MakeDirs ''A/diff'',
                   OpenStorage (PTuple [PStr ''A/diff/a.yml'']),
                   Print Plain [Str (''Error when comparing '' @ dq), Str ''a.yml'',
                                Str (dq @ '': '' @ dq),
                                Exc (BadFilename (PTuple [PStr ''A/diff/a.yml''])),
                                Str (dq @ ''.'')]],
          fs = fs_major\<rparr>
   \<and> fs_major ''A/diff/a.yml'' = None"
  by (simp add: a_parsed save_a_def no_fail_def fs_major_def replay_defs)

text \<open>
Claim C9 as stated fails on arrays that hold an infinity: the two files hold the same array
  \<open>[inf]\<close>, the difference \<open>inf - inf\<close> is not-a-number, so is the distance, both
  comparisons of the distance are false, and the entry is printed in red with the statistics
  and sent to the branch that saves the difference.
\<close>

theorem identical_infinite_arrays_red:
  "compare no_fail fs_inf (MatList_init manifest_a) ''A'' ''B'' =
     Inr \<lparr>scopes = [],
          trace = [IsFile ''A/a.yml'', IsFile ''B/a.yml'', LoadMat ''A/a.yml'', LoadMat ''B/a.yml'',
                   Print Red [Str [], Str ''a'', Str '': d='', Num NaN,
                              Str '', min='', Num NaN, Str '', max='', Num NaN,
                              Str '', avg='', Num NaN, Str '', median='', Num NaN,
                              Str '', std='', Num NaN],
                   MakeDirs ''A/diff'',
                   OpenStorage (PTuple [PStr ''A/diff/a.yml'']),
                   Print Plain [Str (''Error when comparing '' @ dq), Str ''a.yml'',
                                Str (dq @ '': '' @ dq),
                                Exc (BadFilename (PTuple [PStr ''A/diff/a.yml''])),
                                Str (dq @ ''.'')]],
          fs = fs_inf\<rparr>"
  by (simp add: a_parsed save_a_def no_fail_def fs_inf_def replay_defs)

text \<open>
Claim C3 as stated fails when one array has a single element: the subtraction stretches
  \<open>[1]\<close> to the length of \<open>[1, 1, 1]\<close>, and the entry is reported as identical with no
  error line.
\<close>

theorem stretched_mismatch_no_error:
  "compare no_fail fs_stretched (MatList_init manifest_a) ''A'' ''B'' =
     Inr \<lparr>scopes = [],
          trace = [IsFile ''A/a.yml'', IsFile ''B/a.yml'', LoadMat ''A/a.yml'', LoadMat ''B/a.yml'',
                   Print Green [Str [], Str ''a'', Str '': d='', Num (Fin 0)]],
          fs = fs_stretched\<rparr>"
  by (simp add: a_parsed save_a_def no_fail_def fs_stretched_def replay_defs)

text \<open>
Claim C8 as stated fails: the manifest that enters the scope \<open>g\<close> and leaves it has two
  actions, and its replay prints the single line \<open>g/\<close>.
\<close>

theorem exit_scope_prints_nothing:
  "flow (MatList_init manifest_scope) = [enter_g, exit_scope]
   \<and> compare no_fail Map.empty (MatList_init manifest_scope) ''A'' ''B'' =
       Inr \<lparr>scopes = [], trace = [Print White [Str ''g/'']], fs = Map.empty\<rparr>"
  by (simp add: scope_parsed enter_g_def exit_scope_def replay_defs)

subsection \<open>The paths on a scenario\<close>

lemma path_a:
  "entry_path ''A'' (scopes (init_state F)) ''a'' ''.yml'' = ''A/a.yml''"
  "entry_path ''B'' (scopes (init_state F)) ''a'' ''.yml'' = ''B/a.yml''"
  by (simp_all add: entry_path_def init_state_def os_path_join_def join_step_def)

lemma save_a_fields: "atype save_a = SAVE_MAT" "aname save_a = Some ''a''"
  by (simp_all add: save_a_def)

theorem entry_paths_joined_witness:
  "scopes \<lparr>scopes = [''g''], trace = [Print White [Str ''g/'']], fs = Map.empty\<rparr>
     = stack_after (scopes (init_state Map.empty)) [enter_g]
   \<and> (\<exists>evs.
         run no_fail ''A'' ''B'' ''.yml'' (init_state Map.empty) ([enter_g] @ save_b # [exit_scope]) =
           run no_fail ''A'' ''B'' ''.yml''
             \<lparr>scopes = [''g''],
              trace = [Print White [Str ''g/''], IsFile ''A/g/b.yml''] @ evs,
              fs = Map.empty\<rparr>
             [exit_scope]
         \<and> Print Plain
               [Str (''Cannot find file matrices: '' @ dq), Str ''A/g/b.yml'',
                Str (dq @ '' or '' @ dq), Str ''B/g/b.yml'', Str dq] \<in> set evs)
   \<and> (\<exists>d1 d2. ''A/g/b.yml'' = d1 @ ''b'' @ ''.yml'' \<and> ''B/g/b.yml'' = d2 @ ''b'' @ ''.yml'')"
proof -
  let ?st = "\<lparr>scopes = [''g''], trace = [Print White [Str ''g/'']], fs = Map.empty\<rparr>"
  have pre: "run no_fail ''A'' ''B'' ''.yml'' (init_state Map.empty) [enter_g] = Inr ?st"
    by (simp add: init_state_def enter_g_def step_def padding_def)
  have t: "atype save_b = SAVE_MAT" "aname save_b = Some ''b''"
    by (simp_all add: save_b_def)
  have p: "os_path_join ''A'' (scopes ?st @ [''b'' @ ''.yml'']) = ''A/g/b.yml''"
    "os_path_join ''B'' (scopes ?st @ [''b'' @ ''.yml'']) = ''B/g/b.yml''"
    by (simp_all add: os_path_join_def join_step_def)
  note c = entry_paths_joined [OF pre t, of "[exit_scope]", unfolded p]
  obtain evs where evs:
    "run no_fail ''A'' ''B'' ''.yml'' (init_state Map.empty) ([enter_g] @ save_b # [exit_scope]) =
       run no_fail ''A'' ''B'' ''.yml'' (?st\<lparr>trace := trace ?st @ IsFile ''A/g/b.yml'' # evs\<rparr>)
         [exit_scope]"
    "IsFile ''B/g/b.yml'' \<in> set evs \<or> missing_line ''A/g/b.yml'' ''B/g/b.yml'' \<in> set evs"
    using c unfolding missing_line_def by blast
  have run_eq: "run no_fail ''A'' ''B'' ''.yml'' (init_state Map.empty) ([enter_g] @ save_b # [exit_scope])
     = Inr \<lparr>scopes = [], trace = [Print White [Str ''g/''], IsFile ''A/g/b.yml'',
              missing_line ''A/g/b.yml'' ''B/g/b.yml''], fs = Map.empty\<rparr>"
    by (simp add: init_state_def enter_g_def save_b_def exit_scope_def replay_defs)
  have "evs = [missing_line ''A/g/b.yml'' ''B/g/b.yml'']"
    using evs(1) unfolding run_eq
    by (simp add: exit_scope_def step_def ENTER_SCOPE_def EXIT_SCOPE_def)
  then have "Print Plain
               [Str (''Cannot find file matrices: '' @ dq), Str ''A/g/b.yml'',
                Str (dq @ '' or '' @ dq), Str ''B/g/b.yml'', Str dq] \<in> set evs"
    by (simp add: missing_line_def)
  with evs(1) c show ?thesis
    by auto
qed

subsection \<open>Lines, classes and diagnostics on the scenarios\<close>

theorem output_lines_per_action_witness:
  "compare no_fail fs_same (MatList_init example_manifest) ''A'' ''B'' =
     Inr \<lparr>scopes = [],
          trace = [IsFile ''A/a.yml'', IsFile ''B/a.yml'', LoadMat ''A/a.yml'', LoadMat ''B/a.yml'',
                   Print Green [Str [], Str ''a'', Str '': d='', Num (Fin 0)],
                   Print White [Str ''g/''],
                   IsFile ''A/g/b.yml'', missing_line ''A/g/b.yml'' ''B/g/b.yml''],
          fs = fs_same\<rparr>
   \<and> length (filter is_scope_line
        [IsFile ''A/a.yml'', IsFile ''B/a.yml'', LoadMat ''A/a.yml'', LoadMat ''B/a.yml'',
         Print Green [Str [], Str ''a'', Str '': d='', Num (Fin 0)],
         Print White [Str ''g/''],
         IsFile ''A/g/b.yml'', missing_line ''A/g/b.yml'' ''B/g/b.yml''])
       = count_type ENTER_SCOPE (flow (MatList_init example_manifest))
   \<and> count_type SAVE_MAT (flow (MatList_init example_manifest))
       \<le> length (filter is_entry_line
        [IsFile ''A/a.yml'', IsFile ''B/a.yml'', LoadMat ''A/a.yml'', LoadMat ''B/a.yml'',
         Print Green [Str [], Str ''a'', Str '': d='', Num (Fin 0)],
         Print White [Str ''g/''],
         IsFile ''A/g/b.yml'', missing_line ''A/g/b.yml'' ''B/g/b.yml''])"
proof -
  have c: "compare no_fail fs_same (MatList_init example_manifest) ''A'' ''B'' =
     Inr \<lparr>scopes = [],
          trace = [IsFile ''A/a.yml'', IsFile ''B/a.yml'', LoadMat ''A/a.yml'', LoadMat ''B/a.yml'',
                   Print Green [Str [], Str ''a'', Str '': d='', Num (Fin 0)],
                   Print White [Str ''g/''],
                   IsFile ''A/g/b.yml'', missing_line ''A/g/b.yml'' ''B/g/b.yml''],
          fs = fs_same\<rparr>"
    by (simp add: example_parsed no_fail_def fs_same_def replay_defs)
  show ?thesis
    using output_lines_per_action [OF c] c by simp
qed

theorem classification_boundaries_witness:
  "(\<exists>t evs. step no_fail ''A'' ''B'' ''.yml'' (init_state fs_minor) save_a =
       Inr ((init_state fs_minor)\<lparr>trace :=
              [IsFile ''A/a.yml'', IsFile ''B/a.yml'', LoadMat ''A/a.yml'', LoadMat ''B/a.yml'',
               Print Yellow t] @ evs\<rparr>)
       \<and> Num (Fin 0.001) \<in> set t)
   \<and> (\<exists>t evs. step no_fail ''A'' ''B'' ''.yml'' (init_state fs_major) save_a =
       Inr ((init_state fs_major)\<lparr>trace :=
              [IsFile ''A/a.yml'', IsFile ''B/a.yml'', LoadMat ''A/a.yml'', LoadMat ''B/a.yml'',
               Print Red t] @ evs\<rparr>)
       \<and> Num (Fin 10) \<in> set t)"
proof -
  have f1: "fs (init_state fs_minor) (entry_path ''A'' (scopes (init_state fs_minor)) ''a'' ''.yml'')
      = Some (Mat [Fin 0])"
    and f2: "fs (init_state fs_minor) (entry_path ''B'' (scopes (init_state fs_minor)) ''a'' ''.yml'')
      = Some (Mat [Fin 0.001])"
    by (simp_all add: path_a) (simp_all add: init_state_def fs_minor_def)
  have s1: "np_sub [Fin 0.001] [Fin 0] = Inr [Fin 0.001]"
    by (simp add: np_sub_def fl_sub_def)
  have d1: "np_norm1 (np_abs [Fin 0.001]) = Fin 0.001"
    by (simp add: np_norm1_def np_abs_def)
  have g1: "fs (init_state fs_major) (entry_path ''A'' (scopes (init_state fs_major)) ''a'' ''.yml'')
      = Some (Mat [Fin 0, Fin 0])"
    and g2: "fs (init_state fs_major) (entry_path ''B'' (scopes (init_state fs_major)) ''a'' ''.yml'')
      = Some (Mat [Fin 5, Fin 5])"
    by (simp_all add: path_a) (simp_all add: init_state_def fs_major_def)
  have s2: "np_sub [Fin 5, Fin 5] [Fin 0, Fin 0] = Inr [Fin 5, Fin 5]"
    by (simp add: np_sub_def fl_sub_def)
  have d2: "np_norm1 (np_abs [Fin 5, Fin 5]) = Fin 10"
    by (simp add: np_norm1_def np_abs_def)
  have c1: "colour_of (classify (Fin 0.001)) = Yellow"
    and c2: "colour_of (classify (Fin 10)) = Red"
    by (simp_all add: classify_def fl_le_def)
  have a: "\<exists>t evs. step no_fail ''A'' ''B'' ''.yml'' (init_state fs_minor) save_a =
       Inr ((init_state fs_minor)\<lparr>trace :=
              [IsFile ''A/a.yml'', IsFile ''B/a.yml'', LoadMat ''A/a.yml'', LoadMat ''B/a.yml'',
               Print Yellow t] @ evs\<rparr>)
       \<and> Num (Fin 0.001) \<in> set t"
    using classification_boundaries [OF save_a_fields f1 f2 s1, of no_fail]
    unfolding d1 c1 path_a by (simp add: init_state_def) blast
  have b: "\<exists>t evs. step no_fail ''A'' ''B'' ''.yml'' (init_state fs_major) save_a =
       Inr ((init_state fs_major)\<lparr>trace :=
              [IsFile ''A/a.yml'', IsFile ''B/a.yml'', LoadMat ''A/a.yml'', LoadMat ''B/a.yml'',
               Print Red t] @ evs\<rparr>)
       \<and> Num (Fin 10) \<in> set t"
    using classification_boundaries [OF save_a_fields g1 g2 s2, of no_fail]
    unfolding d2 c2 path_a by (simp add: init_state_def) blast
  from a b show ?thesis
    by blast
qed

theorem identical_arrays_green_witness:
  "np_sub [Fin 1, Fin 2] [Fin 1, Fin 2] = Inr [Fin 0, Fin 0]
   \<and> step no_fail ''A'' ''B'' ''.yml'' (init_state fs_same) save_a =
       Inr ((init_state fs_same)\<lparr>trace :=
              [IsFile ''A/a.yml'', IsFile ''B/a.yml'', LoadMat ''A/a.yml'', LoadMat ''B/a.yml'',
               Print Green [Str [], Str ''a'', Str '': d='', Num (Fin 0)]]\<rparr>)"
proof -
  have f1: "fs (init_state fs_same) (entry_path ''A'' (scopes (init_state fs_same)) ''a'' ''.yml'')
      = Some (Mat [Fin 1, Fin 2])"
    and f2: "fs (init_state fs_same) (entry_path ''B'' (scopes (init_state fs_same)) ''a'' ''.yml'')
      = Some (Mat [Fin 1, Fin 2])"
    by (simp_all add: path_a) (simp_all add: init_state_def fs_same_def)
  have ne: "[Fin 1, Fin 2] \<noteq> []"
    by simp
  have fin: "list_all is_finite [Fin 1, Fin 2]"
    by (simp add: is_finite_def)
  have s: "np_sub [Fin 1, Fin 2] [Fin 1, Fin 2] = Inr [Fin 0, Fin 0]"
    by (simp add: np_sub_def fl_sub_def)
  show ?thesis
    using identical_arrays_green [OF save_a_fields f1 f2 ne fin, of no_fail] s
    unfolding path_a by (simp add: init_state_def padding_def)
qed

theorem length_mismatch_diagnostic_witness:
  "\<exists>x. step no_fail ''A'' ''B'' ''.yml'' (init_state fs_mismatch) save_a =
       Inr ((init_state fs_mismatch)\<lparr>trace :=
              [IsFile ''A/a.yml'', IsFile ''B/a.yml'', LoadMat ''A/a.yml'', LoadMat ''B/a.yml'',
               Print Plain [Str (''Error when comparing '' @ dq), Str ''a.yml'',
                            Str (dq @ '': '' @ dq), Exc x, Str (dq @ ''.'')]]\<rparr>)"
proof -
  have f1: "fs (init_state fs_mismatch) (entry_path ''A'' (scopes (init_state fs_mismatch)) ''a'' ''.yml'')
      = Some (Mat [Fin 1, Fin 2])"
    and f2: "fs (init_state fs_mismatch) (entry_path ''B'' (scopes (init_state fs_mismatch)) ''a'' ''.yml'')
      = Some (Mat [Fin 1, Fin 2, Fin 3])"
    by (simp_all add: path_a) (simp_all add: init_state_def fs_mismatch_def)
  have h: "length [Fin 1, Fin 2] \<noteq> length [Fin 1, Fin 2, Fin 3]"
    "\<not> (length [Fin 1, Fin 2] = 1 \<and> 2 \<le> length [Fin 1, Fin 2, Fin 3])"
    "\<not> (length [Fin 1, Fin 2, Fin 3] = 1 \<and> 2 \<le> length [Fin 1, Fin 2])"
    by simp_all
  have r: "rel_path (scopes (init_state fs_mismatch)) ''a'' ''.yml'' = ''a.yml''"
    by (simp add: rel_path_def init_state_def os_path_join_def)
  show ?thesis
    using length_mismatch_diagnostic [OF save_a_fields f1 f2 h, of no_fail "[]"]
    unfolding path_a r by (simp add: init_state_def) blast
qed

end
